theory Spec2Isabelle
  imports Complex_Main "HOL-Library.Char_ord" "HOL-Library.List_Lexorder" "HOL-Library.Log_Nat"
begin

section \<open>The expense tracker of \<^verbatim>\<open>main_async.py\<close>\<close>

text \<open>
  The program is five tool functions over one SQLite table \<^verbatim>\<open>expenses\<close>. Each
  function opens a connection, executes one parameterised statement, commits (the three
  mutating functions) and returns a dictionary or a list; a \<^verbatim>\<open>try/except Exception\<close>
  around the whole body turns every exception into an error dictionary.

  The embedding has three layers, bottom up:
  \<^item> the table and the statements the program sends, with the meaning SQLite gives them;
  \<^item> the connection calls of aiosqlite, each of them a coroutine: it does something only
    when it is awaited;
  \<^item> the five tool functions, written line by line after the source.

  Conventions. A Python argument is modelled at the type of the column it is bound to: a
  \<^verbatim>\<open>str\<close> or \<^verbatim>\<open>None\<close> for the text columns, and for \<^verbatim>\<open>amount\<close> a number, which
  is an \<^verbatim>\<open>int\<close> or a \<^verbatim>\<open>float\<close>, or \<^verbatim>\<open>None\<close>. A \<^verbatim>\<open>float\<close> and SQLite's REAL
  are IEEE doubles; the value of one is a \<open>real\<close>, and the arithmetic on them is idealised
  as that of the reals. Strings are byte strings, compared byte by byte as SQLite's BINARY
  collation does. An exception is represented by its text \<^verbatim>\<open>str(e)\<close>.
\<close>

subsection \<open>Values, rows and the stored table\<close>

datatype sqlval = SqlNull | SqlInt int | SqlReal real | SqlText string

datatype column = ColId | ColDate | ColAmount | ColCategory | ColSubcategory | ColNote

text \<open>One row of \<^verbatim>\<open>expenses\<close>. The rowid is an integer; the other columns hold values.\<close>

record expense =
  e_id :: int
  e_date :: sqlval
  e_amount :: sqlval
  e_category :: sqlval
  e_subcategory :: sqlval
  e_note :: sqlval

text \<open>
  The database file: the rows of the table and the entry of \<^verbatim>\<open>sqlite_sequence\<close> that
  AUTOINCREMENT keeps (the largest rowid ever given out).
\<close>

record store =
  expenses :: "expense list"
  sqlite_sequence :: int

type_synonym exn = string

fun col_name :: "column \<Rightarrow> string" where
  "col_name ColId = ''id''"
| "col_name ColDate = ''date''"
| "col_name ColAmount = ''amount''"
| "col_name ColCategory = ''category''"
| "col_name ColSubcategory = ''subcategory''"
| "col_name ColNote = ''note''"

fun get_col :: "column \<Rightarrow> expense \<Rightarrow> sqlval" where
  "get_col ColId r = SqlInt (e_id r)"
| "get_col ColDate r = e_date r"
| "get_col ColAmount r = e_amount r"
| "get_col ColCategory r = e_category r"
| "get_col ColSubcategory r = e_subcategory r"
| "get_col ColNote r = e_note r"

text \<open>
  The column \<^verbatim>\<open>amount\<close> is declared REAL: an integer stored into it is forced into
  floating point, that is, rounded to the nearest double (ties to even). The integers up
  to \<open>2 ^ 53\<close> in absolute value are doubles; beyond, a double has the 53 leading bits.
\<close>

definition double_of_int :: "int \<Rightarrow> real" where
  "double_of_int i =
     (let n = \<bar>i\<bar> in
      if n < 2 ^ 53 then of_int i
      else
        let e = nat (bitlen n - 53);
            q = n div 2 ^ e;
            r = n mod 2 ^ e;
            q' = (if 2 ^ (e - 1) < r \<or> (r = 2 ^ (e - 1) \<and> odd q) then q + 1 else q)
        in of_int (sgn i * (q' * 2 ^ e)))"

fun real_affinity :: "sqlval \<Rightarrow> sqlval" where
  "real_affinity (SqlInt i) = SqlReal (double_of_int i)"
| "real_affinity v = v"

text \<open>Assignment to a column. No statement of the program assigns \<^verbatim>\<open>id\<close>.\<close>

fun set_col :: "column \<Rightarrow> sqlval \<Rightarrow> expense \<Rightarrow> expense" where
  "set_col ColId v r = (case v of SqlInt i \<Rightarrow> r\<lparr>e_id := i\<rparr> | _ \<Rightarrow> r)"
| "set_col ColDate v r = r\<lparr>e_date := v\<rparr>"
| "set_col ColAmount v r = r\<lparr>e_amount := real_affinity v\<rparr>"
| "set_col ColCategory v r = r\<lparr>e_category := v\<rparr>"
| "set_col ColSubcategory v r = r\<lparr>e_subcategory := v\<rparr>"
| "set_col ColNote v r = r\<lparr>e_note := v\<rparr>"

fun assign :: "(column \<times> sqlval) list \<Rightarrow> expense \<Rightarrow> expense" where
  "assign [] r = r"
| "assign ((c, v) # as) r = assign as (set_col c v r)"

text \<open>The columns declared \<^verbatim>\<open>NOT NULL\<close> by \<^verbatim>\<open>init_db\<close>, in the order of the schema.\<close>

definition not_null_cols :: "column list" where
  "not_null_cols = [ColDate, ColAmount, ColCategory]"

definition not_null_error :: "column \<Rightarrow> exn" where
  "not_null_error c = ''NOT NULL constraint failed: expenses.'' @ col_name c"

subsection \<open>Comparison of values\<close>

text \<open>
  A comparison with NULL is never true. Values of one storage class compare by value,
  text by bytes; numbers sort before text. (A number bound against a text column would
  first be converted by the column's affinity; the typed arguments never do that.)
\<close>

fun sql_eq :: "sqlval \<Rightarrow> sqlval \<Rightarrow> bool" where
  "sql_eq (SqlInt i) (SqlInt j) = (i = j)"
| "sql_eq (SqlReal x) (SqlReal y) = (x = y)"
| "sql_eq (SqlInt i) (SqlReal y) = (of_int i = y)"
| "sql_eq (SqlReal x) (SqlInt j) = (x = of_int j)"
| "sql_eq (SqlText s) (SqlText t) = (s = t)"
| "sql_eq _ _ = False"

fun sql_le :: "sqlval \<Rightarrow> sqlval \<Rightarrow> bool" where
  "sql_le (SqlInt i) (SqlInt j) = (i \<le> j)"
| "sql_le (SqlReal x) (SqlReal y) = (x \<le> y)"
| "sql_le (SqlInt i) (SqlReal y) = (of_int i \<le> y)"
| "sql_le (SqlReal x) (SqlInt j) = (x \<le> of_int j)"
| "sql_le (SqlText s) (SqlText t) = (s \<le> t)"
| "sql_le (SqlInt i) (SqlText t) = True"
| "sql_le (SqlReal x) (SqlText t) = True"
| "sql_le _ _ = False"

subsection \<open>Statements\<close>

text \<open>
  The program writes its statements as SQL text with \<^verbatim>\<open>?\<close> placeholders and passes the
  parameters as a separate sequence; two of the functions assemble the text from pieces.
  A statement is modelled by its syntax tree; the placeholders are bound in the order in
  which they occur in the text, as SQLite binds them.

  \<^item> \<open>Eq c\<close> is \<^verbatim>\<open>c = ?\<close> and \<open>Between c\<close> is \<^verbatim>\<open>c BETWEEN ? AND ?\<close>; a list of
    conditions is their conjunction.
  \<^item> \<open>InsertInto cs\<close> is \<^verbatim>\<open>INSERT INTO expenses(cs) VALUES (?,...)\<close>.
  \<^item> \<open>UpdateSet cs ws\<close> is \<^verbatim>\<open>UPDATE expenses SET c = ?, ... WHERE ws\<close>.
  \<^item> \<open>DeleteFrom ws\<close> is \<^verbatim>\<open>DELETE FROM expenses WHERE ws\<close>.
  \<^item> \<open>SelectFrom cs ws o\<close> is \<^verbatim>\<open>SELECT cs FROM expenses WHERE ws ORDER BY o ASC\<close>.
  \<^item> \<open>SelectSum g a ws\<close> is
    \<^verbatim>\<open>SELECT g, SUM(a) AS total_amount FROM expenses WHERE ws GROUP BY g ORDER BY g ASC\<close>.
\<close>

datatype cond = Eq column | Between column

datatype statement =
    InsertInto "column list"
  | UpdateSet "column list" "cond list"
  | DeleteFrom "cond list"
  | SelectFrom "column list" "cond list" column
  | SelectSum column column "cond list"

fun cond_arity :: "cond \<Rightarrow> nat" where
  "cond_arity (Eq c) = 1"
| "cond_arity (Between c) = 2"

fun placeholders :: "statement \<Rightarrow> nat" where
  "placeholders (InsertInto cs) = length cs"
| "placeholders (UpdateSet cs ws) = length cs + sum_list (map cond_arity ws)"
| "placeholders (DeleteFrom ws) = sum_list (map cond_arity ws)"
| "placeholders (SelectFrom cs ws ob) = sum_list (map cond_arity ws)"
| "placeholders (SelectSum g a ws) = sum_list (map cond_arity ws)"

text \<open>
  Whether a row satisfies a WHERE clause under the bound parameters. A row is selected
  only if the clause is true for it; a comparison with NULL is not.
\<close>

fun where_holds :: "cond list \<Rightarrow> sqlval list \<Rightarrow> expense \<Rightarrow> bool" where
  "where_holds [] ps r = True"
| "where_holds (Eq c # ws) (p # ps) r = (sql_eq (get_col c r) p \<and> where_holds ws ps r)"
| "where_holds (Between c # ws) (lo # hi # ps) r =
     (sql_le lo (get_col c r) \<and> sql_le (get_col c r) hi \<and> where_holds ws ps r)"
| "where_holds ws ps r = False"

text \<open>What a cursor shows after \<^verbatim>\<open>execute\<close>.\<close>

record cursor =
  lastrowid :: int
  rowcount :: int
  description :: "string list"
  pending :: "sqlval list list"

subsection \<open>Execution of a statement\<close>

text \<open>
  AUTOINCREMENT: the new rowid is one more than the largest rowid that was ever in the
  table; SQLite takes the larger of the \<^verbatim>\<open>sqlite_sequence\<close> entry and the largest rowid
  present, and fails with SQLITE_FULL when that is the largest 64-bit integer.
\<close>

definition largest_rowid :: "store \<Rightarrow> int" where
  "largest_rowid st = fold max (map e_id (expenses st)) (sqlite_sequence st)"

definition default_row :: "int \<Rightarrow> expense" where
  "default_row i = \<lparr>e_id = i, e_date = SqlNull, e_amount = SqlNull, e_category = SqlNull,
     e_subcategory = SqlText '''', e_note = SqlText ''''\<rparr>"

definition exec_insert :: "column list \<Rightarrow> sqlval list \<Rightarrow> store \<Rightarrow> exn + store \<times> cursor" where
  "exec_insert cs ps st =
     (if 9223372036854775807 \<le> largest_rowid st then Inl ''database or disk is full''
      else
        let i = largest_rowid st + 1;
            r = assign (zip cs ps) (default_row i)
        in case find (\<lambda>c. get_col c r = SqlNull) not_null_cols of
             Some c \<Rightarrow> Inl (not_null_error c)
           | None \<Rightarrow>
               Inr (\<lparr>expenses = expenses st @ [r], sqlite_sequence = i\<rparr>,
                    \<lparr>lastrowid = i, rowcount = 1, description = [], pending = []\<rparr>))"

text \<open>
  UPDATE checks \<^verbatim>\<open>NOT NULL\<close> for the assigned columns, row by row: a NULL for such a
  column fails the statement as soon as one row is selected, and changes nothing.
\<close>

definition exec_update ::
  "column list \<Rightarrow> cond list \<Rightarrow> sqlval list \<Rightarrow> store \<Rightarrow> exn + store \<times> cursor" where
  "exec_update cs ws ps st =
     (let sets = zip cs (take (length cs) ps);
          hit = where_holds ws (drop (length cs) ps)
      in case find (\<lambda>(c, v). c \<in> set not_null_cols \<and> v = SqlNull) sets of
           Some (c, v) \<Rightarrow>
             if list_ex hit (expenses st) then Inl (not_null_error c)
             else Inr (st, \<lparr>lastrowid = 0, rowcount = 0, description = [], pending = []\<rparr>)
         | None \<Rightarrow>
             Inr (st\<lparr>expenses := map (\<lambda>r. if hit r then assign sets r else r) (expenses st)\<rparr>,
                  \<lparr>lastrowid = 0, rowcount = int (length (filter hit (expenses st))),
                   description = [], pending = []\<rparr>))"

definition exec_delete :: "cond list \<Rightarrow> sqlval list \<Rightarrow> store \<Rightarrow> exn + store \<times> cursor" where
  "exec_delete ws ps st =
     Inr (st\<lparr>expenses := filter (\<lambda>r. \<not> where_holds ws ps r) (expenses st)\<rparr>,
          \<lparr>lastrowid = 0, rowcount = int (length (filter (where_holds ws ps) (expenses st))),
           description = [], pending = []\<rparr>)"

text \<open>Rows in ascending order of a column.\<close>

fun insert_row :: "column \<Rightarrow> expense \<Rightarrow> expense list \<Rightarrow> expense list" where
  "insert_row ob r [] = [r]"
| "insert_row ob r (x # xs) =
     (if sql_le (get_col ob r) (get_col ob x) then r # x # xs else x # insert_row ob r xs)"

definition order_by :: "column \<Rightarrow> expense list \<Rightarrow> expense list" where
  "order_by ob rs = foldr (insert_row ob) rs []"

definition exec_select ::
  "column list \<Rightarrow> cond list \<Rightarrow> column \<Rightarrow> sqlval list \<Rightarrow> store \<Rightarrow> exn + store \<times> cursor" where
  "exec_select cs ws ob ps st =
     Inr (st, \<lparr>lastrowid = 0, rowcount = - 1, description = map col_name cs,
               pending = map (\<lambda>r. map (\<lambda>c. get_col c r) cs)
                             (order_by ob (filter (where_holds ws ps) (expenses st)))\<rparr>)"

text \<open>
  GROUP BY with SUM: one pass over the selected rows that keeps a running total per
  group, then the groups in ascending order of the key. SUM adds the numbers and skips
  NULL.
\<close>

fun numeric :: "sqlval \<Rightarrow> real" where
  "numeric (SqlInt i) = of_int i"
| "numeric (SqlReal x) = x"
| "numeric v = 0"

fun accumulate :: "sqlval \<Rightarrow> real \<Rightarrow> (sqlval \<times> real) list \<Rightarrow> (sqlval \<times> real) list" where
  "accumulate k a [] = [(k, a)]"
| "accumulate k a ((g, t) # gs) =
     (if g = k then (g, t + a) # gs else (g, t) # accumulate k a gs)"

fun insert_group :: "sqlval \<times> real \<Rightarrow> (sqlval \<times> real) list \<Rightarrow> (sqlval \<times> real) list" where
  "insert_group g [] = [g]"
| "insert_group g (x # xs) =
     (if sql_le (fst g) (fst x) then g # x # xs else x # insert_group g xs)"

definition exec_select_sum ::
  "column \<Rightarrow> column \<Rightarrow> cond list \<Rightarrow> sqlval list \<Rightarrow> store \<Rightarrow> exn + store \<times> cursor" where
  "exec_select_sum g a ws ps st =
     (let sel = filter (where_holds ws ps) (expenses st);
          groups = fold (\<lambda>r. accumulate (get_col g r) (numeric (get_col a r))) sel []
      in Inr (st, \<lparr>lastrowid = 0, rowcount = - 1,
                   description = [col_name g, ''total_amount''],
                   pending = map (\<lambda>(k, t). [k, SqlReal t]) (foldr insert_group groups [])\<rparr>))"

definition exec_statement :: "statement \<Rightarrow> sqlval list \<Rightarrow> store \<Rightarrow> exn + store \<times> cursor" where
  "exec_statement q ps st =
     (case q of
        InsertInto cs \<Rightarrow> exec_insert cs ps st
      | UpdateSet cs ws \<Rightarrow> exec_update cs ws ps st
      | DeleteFrom ws \<Rightarrow> exec_delete ws ps st
      | SelectFrom cs ws ob \<Rightarrow> exec_select cs ws ob ps st
      | SelectSum g a ws \<Rightarrow> exec_select_sum g a ws ps st)"

subsection \<open>Binding of parameters\<close>

text \<open>
  The parameters of a statement are Python values. The driver refuses a parameter
  sequence whose length is not the number of placeholders (\<^verbatim>\<open>sqlite3.ProgrammingError\<close>),
  then binds the values one by one: \<^verbatim>\<open>None\<close> as NULL, a \<^verbatim>\<open>str\<close> as text, a
  \<^verbatim>\<open>float\<close> as a real, an \<^verbatim>\<open>int\<close> as a 64-bit integer. An \<^verbatim>\<open>int\<close> outside the
  signed 64-bit range raises \<^verbatim>\<open>OverflowError\<close>, before the statement runs and whether or
  not it would select a row.
\<close>

datatype pyval = PyNone | PyStr string | PyInt int | PyFloat real

fun bind_param :: "pyval \<Rightarrow> exn + sqlval" where
  "bind_param PyNone = Inr SqlNull"
| "bind_param (PyStr s) = Inr (SqlText s)"
| "bind_param (PyFloat x) = Inr (SqlReal x)"
| "bind_param (PyInt i) =
     (if - 9223372036854775808 \<le> i \<and> i \<le> 9223372036854775807 then Inr (SqlInt i)
      else Inl ''Python int too large to convert to SQLite INTEGER'')"

fun bind_all :: "pyval list \<Rightarrow> exn + sqlval list" where
  "bind_all [] = Inr []"
| "bind_all (p # ps) =
     (case bind_param p of
        Inl e \<Rightarrow> Inl e
      | Inr v \<Rightarrow> (case bind_all ps of Inl e \<Rightarrow> Inl e | Inr vs \<Rightarrow> Inr (v # vs)))"

definition bind_parameters :: "statement \<Rightarrow> pyval list \<Rightarrow> exn + sqlval list" where
  "bind_parameters q ps =
     (if length ps \<noteq> placeholders q then Inl ''Incorrect number of bindings supplied.''
      else bind_all ps)"

subsection \<open>Coroutines, the connection and storage faults\<close>

text \<open>
  Calling an \<^verbatim>\<open>async def\<close> function does not run it: the call returns a coroutine
  object, and only \<^verbatim>\<open>await\<close> runs it and yields its result. \<open>Coroutine x\<close> is a
  coroutine that yields \<open>x\<close> when awaited. A coroutine object is not iterable:
  \<^verbatim>\<open>for r in co\<close> raises \<^verbatim>\<open>TypeError\<close>, an \<^verbatim>\<open>Exception\<close>.

  In aiosqlite, \<^verbatim>\<open>connect\<close>, \<^verbatim>\<open>Connection.execute\<close>, \<^verbatim>\<open>Connection.commit\<close> and
  \<^verbatim>\<open>Cursor.fetchall\<close> are coroutine functions (the connection and the cursor wrap the
  ones of \<^verbatim>\<open>sqlite3\<close> and run them on another thread); \<^verbatim>\<open>Cursor.description\<close>,
  \<^verbatim>\<open>lastrowid\<close> and \<^verbatim>\<open>rowcount\<close> are plain properties.
\<close>

datatype 'a coroutine = Coroutine 'a

fun await :: "'a coroutine \<Rightarrow> 'a" where
  "await (Coroutine x) = x"

definition coroutine_not_iterable :: exn where
  "coroutine_not_iterable =
     [CHR 0x27] @ ''coroutine'' @ [CHR 0x27] @ '' object is not iterable''"

definition iterate :: "'a coroutine \<Rightarrow> exn + 'b list" where
  "iterate co = Inl coroutine_not_iterable"

text \<open>
  The storage layer can fail at each call into it. The environment says, for each stage,
  whether that call raises and with which text (\<^verbatim>\<open>str(e)\<close>); it is the only thing the
  model leaves open about the file system and other processes.
\<close>

datatype stage = Connect | Execute | Commit | Close

type_synonym env = "stage \<Rightarrow> exn option"

definition no_faults :: env where
  "no_faults = (\<lambda>s. None)"

text \<open>
  A connection sees its own uncommitted changes (\<open>working\<close>); the file holds what was
  committed (\<open>durable\<close>). The first data-changing statement opens a transaction, which
  \<^verbatim>\<open>commit\<close> writes to the file; closing the connection drops what was not committed.
\<close>

record connection =
  durable :: store
  working :: store

definition connect :: "env \<Rightarrow> store \<Rightarrow> (exn + connection) coroutine" where
  "connect env st =
     Coroutine (case env Connect of
                  Some e \<Rightarrow> Inl e
                | None \<Rightarrow> Inr \<lparr>durable = st, working = st\<rparr>)"

definition execute ::
  "env \<Rightarrow> connection \<Rightarrow> statement \<Rightarrow> pyval list \<Rightarrow> (exn + connection \<times> cursor) coroutine" where
  "execute env c q ps =
     Coroutine (case env Execute of
                  Some e \<Rightarrow> Inl e
                | None \<Rightarrow>
                    (case bind_parameters q ps of
                       Inl e \<Rightarrow> Inl e
                     | Inr vs \<Rightarrow>
                         (case exec_statement q vs (working c) of
                            Inl e \<Rightarrow> Inl e
                          | Inr (w, cur) \<Rightarrow> Inr (c\<lparr>working := w\<rparr>, cur))))"

definition commit :: "env \<Rightarrow> connection \<Rightarrow> (exn + connection) coroutine" where
  "commit env c =
     Coroutine (case env Commit of
                  Some e \<Rightarrow> Inl e
                | None \<Rightarrow> Inr (c\<lparr>durable := working c\<rparr>))"

definition fetchall :: "cursor \<Rightarrow> (exn + sqlval list list) coroutine" where
  "fetchall cur = Coroutine (Inr (pending cur))"

definition close :: "env \<Rightarrow> connection \<Rightarrow> exn + store" where
  "close env c = (case env Close of Some e \<Rightarrow> Inl e | None \<Rightarrow> Inr (durable c))"

text \<open>
  \<^verbatim>\<open>async with aiosqlite.connect(DB_PATH) as c: body\<close>. The body yields the connection
  as it leaves it and either a value or an exception. The connection is closed on every
  way out; an exception raised by the closing replaces the body's outcome. The result is
  the file afterwards and the outcome.
\<close>

definition async_with ::
  "env \<Rightarrow> store \<Rightarrow> (connection \<Rightarrow> connection \<times> (exn + 'a)) \<Rightarrow> store \<times> (exn + 'a)" where
  "async_with env st body =
     (case await (connect env st) of
        Inl e \<Rightarrow> (st, Inl e)
      | Inr c \<Rightarrow>
          (case body c of
             (c', out) \<Rightarrow>
               (case close env c' of
                  Inl e \<Rightarrow> (durable c', Inl e)
                | Inr st' \<Rightarrow> (st', out))))"

subsection \<open>Python values\<close>

text \<open>
  The arguments of the tool functions. A text argument is a \<^verbatim>\<open>str\<close> or \<^verbatim>\<open>None\<close>; the
  amount is a number, an \<^verbatim>\<open>int\<close> or a \<^verbatim>\<open>float\<close>, or \<^verbatim>\<open>None\<close>.
\<close>

datatype number = IntNum int | FloatNum real

definition py_text :: "string option \<Rightarrow> pyval" where
  "py_text s = (case s of None \<Rightarrow> PyNone | Some t \<Rightarrow> PyStr t)"

definition py_number :: "number option \<Rightarrow> pyval" where
  "py_number x =
     (case x of None \<Rightarrow> PyNone | Some (IntNum i) \<Rightarrow> PyInt i | Some (FloatNum a) \<Rightarrow> PyFloat a)"

text \<open>\<^verbatim>\<open>str.lower\<close> on the ASCII letters, and the substring test \<^verbatim>\<open>p in s\<close>.\<close>

definition lower_char :: "char \<Rightarrow> char" where
  "lower_char c =
     (if CHR ''A'' \<le> c \<and> c \<le> CHR ''Z'' then char_of (of_char c + (32 :: nat)) else c)"

definition lower :: "string \<Rightarrow> string" where
  "lower s = map lower_char s"

fun py_in :: "string \<Rightarrow> string \<Rightarrow> bool" where
  "py_in p [] = (p = [])"
| "py_in p (c # s) = (take (length p) (c # s) = p \<or> py_in p s)"

text \<open>\<^verbatim>\<open>if category:\<close> is false for \<^verbatim>\<open>None\<close> and for the empty string.\<close>

fun truthy :: "string option \<Rightarrow> bool" where
  "truthy None = False"
| "truthy (Some s) = (s \<noteq> [])"

subsection \<open>The tool functions\<close>

text \<open>
  What a tool function returns: one of the status dictionaries, or a list of row
  dictionaries (column name to value).
\<close>

datatype result =
    AddOk int string
  | UpdateOk int string
  | DeleteOk int string
  | StatusError string
  | RowList "(string \<times> sqlval) list list"

text \<open>
  \<^verbatim>\<open>init_db\<close> runs once when the module is loaded: \<^verbatim>\<open>CREATE TABLE IF NOT EXISTS\<close>
  keeps a table that is there and creates an empty one otherwise; an exception is printed
  and raised again.
\<close>

definition init_db :: "exn option \<Rightarrow> store option \<Rightarrow> exn + store" where
  "init_db fault file =
     (case fault of
        Some e \<Rightarrow> Inl e
      | None \<Rightarrow>
          Inr (case file of
                 None \<Rightarrow> \<lparr>expenses = [], sqlite_sequence = 0\<rparr>
               | Some st \<Rightarrow> st))"

text \<open>
  Each tool function is a \<^verbatim>\<open>try\<close> block and its handler. The block is the function
  named \<open>_body\<close>: it yields the file afterwards and either the value returned or the
  exception raised. The tool function applies the handler to an exception. A parameter
  left out by the caller has its default: the empty string for \<^verbatim>\<open>subcategory\<close> and
  \<^verbatim>\<open>note\<close> of \<^verbatim>\<open>add_expense\<close>, \<^verbatim>\<open>None\<close> elsewhere.

  The handler below is shared, word for word, by the three mutating functions.
\<close>

definition database_error :: "exn \<Rightarrow> result" where
  "database_error e =
     (if py_in ''readonly'' (lower e)
      then StatusError ''Database is in read-only mode. Check file permissions.''
      else StatusError (''Database error: '' @ e))"

definition add_expense_body ::
  "store \<Rightarrow> env \<Rightarrow> string option \<Rightarrow> number option \<Rightarrow> string option \<Rightarrow> string option \<Rightarrow>
   string option \<Rightarrow> store \<times> (exn + result)" where
  "add_expense_body st env date amount category subcategory note =
     async_with env st (\<lambda>c.
       case await (execute env c
                     (InsertInto [ColDate, ColAmount, ColCategory, ColSubcategory, ColNote])
                     [py_text date, py_number amount, py_text category,
                      py_text subcategory, py_text note]) of
         Inl e \<Rightarrow> (c, Inl e)
       | Inr (c1, cur) \<Rightarrow>
           (case await (commit env c1) of
              Inl e \<Rightarrow> (c1, Inl e)
            | Inr c2 \<Rightarrow> (c2, Inr (AddOk (lastrowid cur) ''Expense added successfully''))))"

definition add_expense ::
  "store \<Rightarrow> env \<Rightarrow> string option \<Rightarrow> number option \<Rightarrow> string option \<Rightarrow> string option \<Rightarrow>
   string option \<Rightarrow> store \<times> result" where
  "add_expense st env date amount category subcategory note =
     (case add_expense_body st env date amount category subcategory note of
        (st', Inr res) \<Rightarrow> (st', res)
      | (st', Inl e) \<Rightarrow> (st', database_error e))"

definition update_expense_body ::
  "store \<Rightarrow> env \<Rightarrow> string option \<Rightarrow> string option \<Rightarrow> number option \<Rightarrow> string option \<Rightarrow>
   string option \<Rightarrow> store \<times> (exn + result)" where
  "update_expense_body st env date category amount subcategory note =
     async_with env st (\<lambda>c.
       let set_parts = [ColAmount];
           params = [py_number amount];
           set_parts = (if note \<noteq> None then set_parts @ [ColNote] else set_parts);
           params = (if note \<noteq> None then params @ [py_text note] else params);
           conds = [Eq ColDate, Eq ColCategory];
           params = params @ [py_text date, py_text category];
           conds = (if subcategory \<noteq> None then conds @ [Eq ColSubcategory] else conds);
           params = (if subcategory \<noteq> None then params @ [py_text subcategory] else params)
       in case await (execute env c (UpdateSet set_parts conds) params) of
            Inl e \<Rightarrow> (c, Inl e)
          | Inr (c1, cur) \<Rightarrow>
              (case await (commit env c1) of
                 Inl e \<Rightarrow> (c1, Inl e)
               | Inr c2 \<Rightarrow> (c2, Inr (UpdateOk (rowcount cur) ''Expense updated successfully''))))"

definition update_expense ::
  "store \<Rightarrow> env \<Rightarrow> string option \<Rightarrow> string option \<Rightarrow> number option \<Rightarrow> string option \<Rightarrow>
   string option \<Rightarrow> store \<times> result" where
  "update_expense st env date category amount subcategory note =
     (case update_expense_body st env date category amount subcategory note of
        (st', Inr res) \<Rightarrow> (st', res)
      | (st', Inl e) \<Rightarrow> (st', database_error e))"

definition delete_expense_body ::
  "store \<Rightarrow> env \<Rightarrow> string option \<Rightarrow> string option \<Rightarrow> string option \<Rightarrow>
   store \<times> (exn + result)" where
  "delete_expense_body st env date category subcategory =
     async_with env st (\<lambda>c.
       let conds = [Eq ColDate, Eq ColCategory];
           params = [py_text date, py_text category];
           conds = (if subcategory \<noteq> None then conds @ [Eq ColSubcategory] else conds);
           params = (if subcategory \<noteq> None then params @ [py_text subcategory] else params)
       in case await (execute env c (DeleteFrom conds) params) of
            Inl e \<Rightarrow> (c, Inl e)
          | Inr (c1, cur) \<Rightarrow>
              (case await (commit env c1) of
                 Inl e \<Rightarrow> (c1, Inl e)
               | Inr c2 \<Rightarrow> (c2, Inr (DeleteOk (rowcount cur) ''Expense deleted successfully''))))"

definition delete_expense ::
  "store \<Rightarrow> env \<Rightarrow> string option \<Rightarrow> string option \<Rightarrow> string option \<Rightarrow> store \<times> result" where
  "delete_expense st env date category subcategory =
     (case delete_expense_body st env date category subcategory of
        (st', Inr res) \<Rightarrow> (st', res)
      | (st', Inl e) \<Rightarrow> (st', database_error e))"

text \<open>
  The two reading functions do not commit, and they iterate over \<^verbatim>\<open>cur.fetchall()\<close>
  without awaiting it (\<^verbatim>\<open>for r in cur.fetchall()\<close>, lines 105 and 131): every other call
  into aiosqlite in the file is awaited, this one is not, so the comprehension iterates
  over the coroutine object itself.
\<close>

definition list_expenses_body ::
  "store \<Rightarrow> env \<Rightarrow> string option \<Rightarrow> string option \<Rightarrow> store \<times> (exn + result)" where
  "list_expenses_body st env start_date end_date =
     async_with env st (\<lambda>c.
       case await (execute env c
                     (SelectFrom [ColId, ColDate, ColAmount, ColCategory, ColSubcategory, ColNote]
                        [Between ColDate] ColId)
                     [py_text start_date, py_text end_date]) of
         Inl e \<Rightarrow> (c, Inl e)
       | Inr (c1, cur) \<Rightarrow>
           (let cols = description cur
            in case iterate (fetchall cur) of
                 Inl e \<Rightarrow> (c1, Inl e)
               | Inr rs \<Rightarrow> (c1, Inr (RowList (map (zip cols) rs)))))"

definition list_expenses ::
  "store \<Rightarrow> env \<Rightarrow> string option \<Rightarrow> string option \<Rightarrow> store \<times> result" where
  "list_expenses st env start_date end_date =
     (case list_expenses_body st env start_date end_date of
        (st', Inr res) \<Rightarrow> (st', res)
      | (st', Inl e) \<Rightarrow> (st', StatusError (''Error listing expenses: '' @ e)))"

definition summarize_body ::
  "store \<Rightarrow> env \<Rightarrow> string option \<Rightarrow> string option \<Rightarrow> string option \<Rightarrow>
   store \<times> (exn + result)" where
  "summarize_body st env start_date end_date category =
     async_with env st (\<lambda>c.
       let conds = [Between ColDate];
           params = [py_text start_date, py_text end_date];
           conds = (if truthy category then conds @ [Eq ColCategory] else conds);
           params = (if truthy category then params @ [py_text category] else params)
       in case await (execute env c (SelectSum ColCategory ColAmount conds) params) of
            Inl e \<Rightarrow> (c, Inl e)
          | Inr (c1, cur) \<Rightarrow>
              (let cols = description cur
               in case iterate (fetchall cur) of
                    Inl e \<Rightarrow> (c1, Inl e)
                  | Inr rs \<Rightarrow> (c1, Inr (RowList (map (zip cols) rs)))))"

definition summarize ::
  "store \<Rightarrow> env \<Rightarrow> string option \<Rightarrow> string option \<Rightarrow> string option \<Rightarrow> store \<times> result" where
  "summarize st env start_date end_date category =
     (case summarize_body st env start_date end_date category of
        (st', Inr res) \<Rightarrow> (st', res)
      | (st', Inl e) \<Rightarrow> (st', StatusError (''Error summarizing expenses: '' @ e)))"

subsection \<open>A server run\<close>

text \<open>
  The server answers one tool call after another against the same file. A call comes with
  the environment it runs in. \<open>serve\<close> gives, for each call, the file after it and the
  answer; \<open>history\<close> is every state the file went through, the first one included.
\<close>

datatype call =
    AddExpense "string option" "number option" "string option" "string option" "string option"
  | UpdateExpense "string option" "string option" "number option" "string option" "string option"
  | DeleteExpense "string option" "string option" "string option"
  | ListExpenses "string option" "string option"
  | Summarize "string option" "string option" "string option"

fun tool_call :: "store \<Rightarrow> env \<times> call \<Rightarrow> store \<times> result" where
  "tool_call st (env, AddExpense d a c sub n) = add_expense st env d a c sub n"
| "tool_call st (env, UpdateExpense d c a sub n) = update_expense st env d c a sub n"
| "tool_call st (env, DeleteExpense d c sub) = delete_expense st env d c sub"
| "tool_call st (env, ListExpenses s e) = list_expenses st env s e"
| "tool_call st (env, Summarize s e c) = summarize st env s e c"

fun serve :: "store \<Rightarrow> (env \<times> call) list \<Rightarrow> (store \<times> result) list" where
  "serve st [] = []"
| "serve st (ec # ecs) = tool_call st ec # serve (fst (tool_call st ec)) ecs"

definition history :: "store \<Rightarrow> (env \<times> call) list \<Rightarrow> store list" where
  "history st ecs = st # map fst (serve st ecs)"

subsection \<open>Notions of the specification\<close>

text \<open>
  The rows that update and delete are specified to select: those whose date and category
  are the given ones and, when a subcategory is given, whose subcategory is the given one.
\<close>

definition spec_matches :: "string \<Rightarrow> string \<Rightarrow> string option \<Rightarrow> expense \<Rightarrow> bool" where
  "spec_matches d c sub r =
     (e_date r = SqlText d \<and> e_category r = SqlText c \<and>
      (case sub of None \<Rightarrow> True | Some s \<Rightarrow> e_subcategory r = SqlText s))"

text \<open>
  The amounts the driver can bind, and the value of \<^verbatim>\<open>amount\<close> a row has after such an
  amount was stored into it.
\<close>

fun amount_in_range :: "number \<Rightarrow> bool" where
  "amount_in_range (FloatNum x) = True"
| "amount_in_range (IntNum i) = (- 9223372036854775808 \<le> i \<and> i \<le> 9223372036854775807)"

fun stored_amount :: "number \<Rightarrow> sqlval" where
  "stored_amount (FloatNum x) = SqlReal x"
| "stored_amount (IntNum i) = SqlReal (double_of_int i)"

text \<open>The note a selected row is specified to have after an update.\<close>

definition new_note :: "string option \<Rightarrow> expense \<Rightarrow> sqlval" where
  "new_note n r = (case n of None \<Rightarrow> e_note r | Some t \<Rightarrow> SqlText t)"

text \<open>
  The rows that list and summarize are specified to select: those whose date lies between
  the two given dates, both included, as strings. The total of a category over some rows.
\<close>

definition spec_in_range :: "string \<Rightarrow> string \<Rightarrow> expense \<Rightarrow> bool" where
  "spec_in_range b f r = (case e_date r of SqlText t \<Rightarrow> b \<le> t \<and> t \<le> f | _ \<Rightarrow> False)"

definition spec_total :: "expense list \<Rightarrow> sqlval \<Rightarrow> real" where
  "spec_total rs k = sum_list (map (\<lambda>r. numeric (e_amount r)) (filter (\<lambda>r. e_category r = k) rs))"

definition is_text :: "sqlval \<Rightarrow> bool" where
  "is_text v = (case v of SqlText t \<Rightarrow> True | _ \<Rightarrow> False)"

text \<open>
  No row has a rowid beyond the recorded sequence value: what AUTOINCREMENT maintains,
  and what the empty table of a first start satisfies.
\<close>

definition ids_bounded :: "store \<Rightarrow> bool" where
  "ids_bounded st = list_all (\<lambda>r. e_id r \<le> sqlite_sequence st) (expenses st)"

text \<open>
  What a successful INSERT leaves: one more row at the end, whose rowid is one more than
  the largest rowid so far and is recorded as the new sequence value.
\<close>

definition appended :: "store \<Rightarrow> store \<Rightarrow> bool" where
  "appended st st' = (\<exists>r. e_id r = largest_rowid st + 1 \<and>
      st' = \<lparr>expenses = expenses st @ [r], sqlite_sequence = largest_rowid st + 1\<rparr>)"

subsection \<open>Example data\<close>

text \<open>
  The table of a first start, and a table with three rows of one day and category that
  differ in the subcategory, and a fourth row of another day and category.
\<close>

definition empty_store :: store where
  "empty_store = \<lparr>expenses = [], sqlite_sequence = 0\<rparr>"

definition example_row :: "int \<Rightarrow> string \<Rightarrow> string \<Rightarrow> string \<Rightarrow> real \<Rightarrow> expense" where
  "example_row i d c sub a =
     \<lparr>e_id = i, e_date = SqlText d, e_amount = SqlReal a, e_category = SqlText c,
      e_subcategory = SqlText sub, e_note = SqlText ''memo''\<rparr>"

definition example_store :: store where
  "example_store =
     \<lparr>expenses =
        [example_row 1 ''2024-01-05'' ''Food'' ''Lunch'' 10,
         example_row 2 ''2024-01-05'' ''Food'' [] 5,
         example_row 3 ''2024-01-05'' ''Food'' ''Dinner'' 7,
         example_row 4 ''2024-01-09'' ''Travel'' [] 20],
      sqlite_sequence = 4\<rparr>"

section \<open>Properties\<close>

subsection \<open>Running without storage faults\<close>

lemma sql_eq_text: "sql_eq v (SqlText s) = (v = SqlText s)"
  by (cases v) auto

lemma async_with_no_faults:
  "async_with no_faults st body =
     (case body \<lparr>durable = st, working = st\<rparr> of (c', out) \<Rightarrow> (durable c', out))"
  by (simp add: async_with_def connect_def close_def no_faults_def split: prod.splits)

lemma execute_no_faults:
  "await (execute no_faults c q ps) =
     (case bind_parameters q ps of
        Inl e \<Rightarrow> Inl e
      | Inr vs \<Rightarrow>
          (case exec_statement q vs (working c) of
             Inl e \<Rightarrow> Inl e
           | Inr (w, cur) \<Rightarrow> Inr (c\<lparr>working := w\<rparr>, cur)))"
  by (simp add: execute_def no_faults_def)

lemma commit_no_faults: "await (commit no_faults c) = Inr (c\<lparr>durable := working c\<rparr>)"
  by (simp add: commit_def no_faults_def)

text \<open>Binding the arguments of the tool functions.\<close>

lemma bind_py_text:
  "bind_param (py_text s) = Inr (case s of None \<Rightarrow> SqlNull | Some t \<Rightarrow> SqlText t)"
  by (cases s) (simp_all add: py_text_def)

lemma bind_amount_in_range:
  assumes "amount_in_range a"
  shows "\<exists>v. bind_param (py_number (Some a)) = Inr v \<and> real_affinity v = stored_amount a \<and>
             v \<noteq> SqlNull"
  using assms by (cases a) (simp_all add: py_number_def)



lemma double_of_small_int: "\<bar>i\<bar> < 2 ^ 53 \<Longrightarrow> double_of_int i = of_int i"
  by (simp add: double_of_int_def)

text \<open>The WHERE clauses that update and delete assemble select the specified rows.\<close>

lemma where_date_category:
  "where_holds [Eq ColDate, Eq ColCategory] [SqlText d, SqlText c] = spec_matches d c None"
  by (rule ext) (simp add: sql_eq_text spec_matches_def)

lemma where_date_category_sub:
  "where_holds [Eq ColDate, Eq ColCategory, Eq ColSubcategory] [SqlText d, SqlText c, SqlText s]
     = spec_matches d c (Some s)"
  by (rule ext) (simp add: sql_eq_text spec_matches_def)

lemma delete_expense_no_faults:
  "delete_expense st no_faults (Some d) (Some c) sub =
     (st\<lparr>expenses := filter (\<lambda>r. \<not> spec_matches d c sub r) (expenses st)\<rparr>,
      DeleteOk (int (length (filter (spec_matches d c sub) (expenses st))))
        ''Expense deleted successfully'')"
proof (cases sub)
  case None
  then show ?thesis
    by (simp add: delete_expense_def delete_expense_body_def async_with_no_faults
        execute_no_faults commit_no_faults bind_parameters_def bind_py_text exec_statement_def
        exec_delete_def where_date_category del: where_holds.simps)
next
  case (Some s)
  then show ?thesis
    by (simp add: delete_expense_def delete_expense_body_def async_with_no_faults
        execute_no_faults commit_no_faults bind_parameters_def bind_py_text exec_statement_def
        exec_delete_def where_date_category_sub del: where_holds.simps)
qed

lemmas update_unfold =
  update_expense_def update_expense_body_def async_with_no_faults execute_no_faults
  commit_no_faults bind_parameters_def bind_py_text exec_statement_def exec_update_def
  not_null_cols_def new_note_def Let_def

lemma update_expense_no_faults:
  assumes "amount_in_range a"
  shows "update_expense st no_faults (Some d) (Some c) (Some a) sub n =
     (st\<lparr>expenses := map (\<lambda>r. if spec_matches d c sub r
                                then r\<lparr>e_amount := stored_amount a, e_note := new_note n r\<rparr>
                                else r) (expenses st)\<rparr>,
      UpdateOk (int (length (filter (spec_matches d c sub) (expenses st))))
        ''Expense updated successfully'')"
proof -
  from bind_amount_in_range [OF assms] obtain v where
    v: "bind_param (py_number (Some a)) = Inr v" "real_affinity v = stored_amount a"
       "v \<noteq> SqlNull"
    by blast
  show ?thesis
  proof (cases sub; cases n)
    fix s t
    show "sub = None \<Longrightarrow> n = None \<Longrightarrow> ?thesis"
      by (simp add: update_unfold v where_date_category del: where_holds.simps)
    show "sub = None \<Longrightarrow> n = Some t \<Longrightarrow> ?thesis"
      by (simp add: update_unfold v where_date_category del: where_holds.simps)
    show "sub = Some s \<Longrightarrow> n = None \<Longrightarrow> ?thesis"
      by (simp add: update_unfold v where_date_category_sub del: where_holds.simps)
    show "sub = Some s \<Longrightarrow> n = Some t \<Longrightarrow> ?thesis"
      by (simp add: update_unfold v where_date_category_sub del: where_holds.simps)
  qed
qed


lemma spec_matches_fun:
  "spec_matches d c None = (\<lambda>r. e_date r = SqlText d \<and> e_category r = SqlText c)"
  "spec_matches d c (Some s) =
     (\<lambda>r. e_date r = SqlText d \<and> e_category r = SqlText c \<and> e_subcategory r = SqlText s)"
  by (rule ext, simp add: spec_matches_def)+

subsection \<open>The reading functions change nothing\<close>

lemma list_expenses_store: "fst (list_expenses st env b f) = st"
  by (auto simp: list_expenses_def list_expenses_body_def async_with_def connect_def close_def
      execute_def exec_statement_def exec_select_def iterate_def Let_def
      split: option.splits sum.splits prod.splits)

lemma summarize_store: "fst (summarize st env b f c) = st"
  by (auto simp: summarize_def summarize_body_def async_with_def connect_def close_def
      execute_def exec_statement_def exec_select_sum_def iterate_def Let_def
      split: option.splits sum.splits prod.splits)

text \<open>
  Claim C10: whatever the arguments, the table and the faults of the storage layer,
  \<^verbatim>\<open>list_expenses\<close> and \<^verbatim>\<open>summarize\<close> leave the stored table as it was, whether they
  answer with a list or with an error.
\<close>

theorem reads_leave_table_unchanged:
  "fst (list_expenses st env start_date end_date) = st \<and>
   fst (summarize st env start_date end_date category) = st"
  by (simp add: list_expenses_store summarize_store)

subsection \<open>Update\<close>







text \<open>Integers beyond \<open>2 ^ 53\<close> are stored rounded, ties to the even neighbour.\<close>

lemma double_of_int_rounds:
  "double_of_int 9007199254740993 = 9007199254740992"
  "double_of_int 9007199254740995 = 9007199254740996"
  "double_of_int (- 9007199254740993) = - 9007199254740992"
  "double_of_int 9223372036854775807 = 9223372036854775808"
  by code_simp+

lemma update_expense_rounds_large_int:
  "map e_amount (expenses (fst (update_expense example_store no_faults (Some ''2024-01-05'')
          (Some ''Food'') (Some (IntNum 9007199254740993)) (Some ''Lunch'') None))) =
     [SqlReal 9007199254740992, SqlReal 5, SqlReal 7, SqlReal 20]"
  by (simp add: update_expense_no_faults)
     (simp add: example_store_def example_row_def spec_matches_def double_of_int_rounds)

subsection \<open>Delete\<close>

text \<open>
  Claim C7: without a storage fault, \<^verbatim>\<open>delete_expense\<close> removes exactly the rows whose
  date and category are the given ones, and whose subcategory is the given one when one is
  given; the rows that stay are unchanged and in their order. The answer is the ok
  dictionary with the number of rows removed. When no row is selected the answer is ok
  with 0 and the table is as before.
\<close>

theorem delete_expense_removes_selected_rows:
  "delete_expense st no_faults (Some d) (Some c) sub =
     (st\<lparr>expenses := filter (\<lambda>r. \<not> spec_matches d c sub r) (expenses st)\<rparr>,
      DeleteOk (int (length (filter (spec_matches d c sub) (expenses st))))
        ''Expense deleted successfully'') \<and>
   int (length (expenses st)) -
     int (length (expenses (fst (delete_expense st no_faults (Some d) (Some c) sub)))) =
     int (length (filter (spec_matches d c sub) (expenses st))) \<and>
   (filter (spec_matches d c sub) (expenses st) = [] \<longrightarrow>
      delete_expense st no_faults (Some d) (Some c) sub =
        (st, DeleteOk 0 ''Expense deleted successfully''))"
proof -
  have len: "int (length (expenses st)) -
      int (length (filter (\<lambda>r. \<not> spec_matches d c sub r) (expenses st))) =
      int (length (filter (spec_matches d c sub) (expenses st)))"
    using sum_length_filter_compl [of "spec_matches d c sub" "expenses st"] by simp
  have none: "filter (\<lambda>r. \<not> spec_matches d c sub r) (expenses st) = expenses st"
    if "filter (spec_matches d c sub) (expenses st) = []"
    using that by (simp add: filter_empty_conv)
  show ?thesis
    using len none by (simp add: delete_expense_no_faults)
qed

theorem delete_expense_removes_selected_rows_witness:
  "delete_expense example_store no_faults (Some ''2024-01-05'') (Some ''Food'') None =
     (\<lparr>expenses = [example_row 4 ''2024-01-09'' ''Travel'' [] 20], sqlite_sequence = 4\<rparr>,
      DeleteOk 3 ''Expense deleted successfully'') \<and>
   filter (spec_matches ''2024-03-01'' ''Food'' None) (expenses example_store) = [] \<and>
   delete_expense example_store no_faults (Some ''2024-03-01'') (Some ''Food'') None =
     (example_store, DeleteOk 0 ''Expense deleted successfully'')"
  using delete_expense_removes_selected_rows [of example_store "''2024-01-05''" "''Food''" None]
        delete_expense_removes_selected_rows [of example_store "''2024-03-01''" "''Food''" None]
  by (simp add: example_store_def example_row_def spec_matches_def)

subsection \<open>An empty subcategory is not an omitted one\<close>

text \<open>
  Claim C8: for update and delete, the empty string as subcategory selects only the rows
  of the given date and category whose subcategory is the empty string, while an omitted
  subcategory (\<^verbatim>\<open>None\<close>) selects the rows of the given date and category whatever their
  subcategory. For update this shows in the rows that get the amount and in the number
  answered, whenever the amount is one the driver binds (a float, or an integer of the
  signed 64-bit range); for delete, in the rows removed and the number answered.
\<close>

theorem empty_subcategory_is_a_filter:
  "(amount_in_range a \<longrightarrow>
      snd (update_expense st no_faults (Some d) (Some c) (Some a) (Some []) n) =
        UpdateOk (int (length (filter (\<lambda>r. e_date r = SqlText d \<and> e_category r = SqlText c \<and>
                    e_subcategory r = SqlText []) (expenses st))))
          ''Expense updated successfully'' \<and>
      snd (update_expense st no_faults (Some d) (Some c) (Some a) None n) =
        UpdateOk (int (length (filter (\<lambda>r. e_date r = SqlText d \<and> e_category r = SqlText c)
                    (expenses st))))
          ''Expense updated successfully'' \<and>
      map e_amount (expenses (fst (update_expense st no_faults (Some d) (Some c) (Some a) (Some []) n))) =
        map (\<lambda>r. if e_date r = SqlText d \<and> e_category r = SqlText c \<and> e_subcategory r = SqlText []
                 then stored_amount a else e_amount r) (expenses st) \<and>
      map e_amount (expenses (fst (update_expense st no_faults (Some d) (Some c) (Some a) None n))) =
        map (\<lambda>r. if e_date r = SqlText d \<and> e_category r = SqlText c
                 then stored_amount a else e_amount r) (expenses st)) \<and>
   delete_expense st no_faults (Some d) (Some c) (Some []) =
     (st\<lparr>expenses := filter (\<lambda>r. \<not> (e_date r = SqlText d \<and> e_category r = SqlText c \<and>
                 e_subcategory r = SqlText [])) (expenses st)\<rparr>,
      DeleteOk (int (length (filter (\<lambda>r. e_date r = SqlText d \<and> e_category r = SqlText c \<and>
                 e_subcategory r = SqlText []) (expenses st))))
        ''Expense deleted successfully'') \<and>
   delete_expense st no_faults (Some d) (Some c) None =
     (st\<lparr>expenses := filter (\<lambda>r. \<not> (e_date r = SqlText d \<and> e_category r = SqlText c))
                 (expenses st)\<rparr>,
      DeleteOk (int (length (filter (\<lambda>r. e_date r = SqlText d \<and> e_category r = SqlText c)
                 (expenses st))))
        ''Expense deleted successfully'')"
  by (simp add: update_expense_no_faults delete_expense_no_faults spec_matches_fun)

theorem empty_subcategory_is_a_filter_witness:
  "amount_in_range (FloatNum 42) \<and>
   snd (update_expense example_store no_faults (Some ''2024-01-05'') (Some ''Food'')
          (Some (FloatNum 42)) (Some []) None) = UpdateOk 1 ''Expense updated successfully'' \<and>
   snd (update_expense example_store no_faults (Some ''2024-01-05'') (Some ''Food'')
          (Some (FloatNum 42)) None None) = UpdateOk 3 ''Expense updated successfully'' \<and>
   map e_amount (expenses (fst (update_expense example_store no_faults (Some ''2024-01-05'')
          (Some ''Food'') (Some (FloatNum 42)) (Some []) None))) =
     [SqlReal 10, SqlReal 42, SqlReal 7, SqlReal 20] \<and>
   map e_amount (expenses (fst (update_expense example_store no_faults (Some ''2024-01-05'')
          (Some ''Food'') (Some (FloatNum 42)) None None))) =
     [SqlReal 42, SqlReal 42, SqlReal 42, SqlReal 20] \<and>
   snd (delete_expense example_store no_faults (Some ''2024-01-05'') (Some ''Food'') (Some []))
     = DeleteOk 1 ''Expense deleted successfully'' \<and>
   snd (delete_expense example_store no_faults (Some ''2024-01-05'') (Some ''Food'') None)
     = DeleteOk 3 ''Expense deleted successfully''"
  using empty_subcategory_is_a_filter
          [of "FloatNum 42" example_store "''2024-01-05''" "''Food''" None]
  by (simp add: example_store_def example_row_def)

subsection \<open>Row identifiers\<close>

lemma fold_max_bounded: "\<forall>x\<in>set xs. x \<le> (a::int) \<Longrightarrow> fold max xs a = a"
  by (induction xs) (simp_all add: max_absorb2)

lemma fold_max_ge: "(a::int) \<le> fold max xs a \<and> (\<forall>x\<in>set xs. x \<le> fold max xs a)"
proof (induction xs arbitrary: a)
  case Nil
  then show ?case by simp
next
  case (Cons x xs)
  have "max x a \<le> fold max xs (max x a)" and "\<forall>y\<in>set xs. y \<le> fold max xs (max x a)"
    using Cons.IH [of "max x a"] by simp_all
  then show ?case by auto
qed

lemma largest_rowid_bounded: "ids_bounded st \<Longrightarrow> largest_rowid st = sqlite_sequence st"
  by (simp add: ids_bounded_def largest_rowid_def list_all_iff fold_max_bounded)

lemma largest_rowid_ge:
  "sqlite_sequence st \<le> largest_rowid st" "r \<in> set (expenses st) \<Longrightarrow> e_id r \<le> largest_rowid st"
  using fold_max_ge [of "sqlite_sequence st" "map e_id (expenses st)"]
  by (simp_all add: largest_rowid_def)

lemma assign_keeps_id: "ColId \<notin> fst ` set as \<Longrightarrow> e_id (assign as r) = e_id r"
proof (induction as arbitrary: r)
  case Nil
  then show ?case by simp
next
  case (Cons x xs)
  obtain c v where x: "x = (c, v)" by (cases x)
  with Cons.prems have "c \<noteq> ColId" by auto
  then have "e_id (set_col c v r) = e_id r" by (cases c) simp_all
  with Cons x show ?case by simp
qed

lemma exec_insert_cases:
  assumes "exec_statement (InsertInto cs) ps st = Inr (w, cur)" and "ColId \<notin> set cs"
  shows "appended st w \<and> lastrowid cur = largest_rowid st + 1"
proof -
  from assms(2) have "ColId \<notin> fst ` set (zip cs ps)"
    by (auto dest: set_zip_leftD)
  from assign_keeps_id [OF this] assms(1) show ?thesis
    by (auto simp: exec_statement_def exec_insert_def appended_def Let_def default_row_def
        split: if_splits option.splits)
qed

lemma exec_update_ids:
  assumes "exec_statement (UpdateSet cs ws) ps st = Inr (w, cur)" and "ColId \<notin> set cs"
  shows "map e_id (expenses w) = map e_id (expenses st) \<and>
         sqlite_sequence w = sqlite_sequence st"
proof -
  from assms(2) have "ColId \<notin> fst ` set (zip cs (take (length cs) ps))"
    by (auto dest: set_zip_leftD)
  from assign_keeps_id [OF this] assms(1) show ?thesis
    by (auto simp: exec_statement_def exec_update_def Let_def
        split: if_splits option.splits prod.splits)
qed

lemma transact:
  assumes "async_with env st (\<lambda>k.
       case await (execute env k q ps) of
         Inl e \<Rightarrow> (k, Inl e)
       | Inr (c1, cur) \<Rightarrow>
           (case await (commit env c1) of
              Inl e \<Rightarrow> (c1, Inl e)
            | Inr c2 \<Rightarrow> (c2, Inr (f cur)))) = (st', out)"
  shows "(st' = st \<and> (\<exists>e. out = Inl e)) \<or>
         (\<exists>vs cur. exec_statement q vs st = Inr (st', cur) \<and>
                   (out = Inr (f cur) \<or> (\<exists>e. out = Inl e)))"
  using assms
  by (auto simp: async_with_def connect_def execute_def commit_def close_def
      split: option.splits sum.splits prod.splits) blast+

lemma add_expense_cases:
  assumes "add_expense st env d a c sub n = (st', res)"
  shows "(st' = st \<or> appended st st') \<and>
         (\<forall>i m. res = AddOk i m \<longrightarrow> appended st st' \<and> i = largest_rowid st + 1)"
proof -
  obtain out where b: "add_expense_body st env d a c sub n = (st', out)"
    and res: "res = (case out of Inr v \<Rightarrow> v | Inl e \<Rightarrow> database_error e)"
    using assms
    by (cases "add_expense_body st env d a c sub n")
       (auto simp: add_expense_def split: sum.splits)
  from transact [OF b [unfolded add_expense_body_def]]
  consider e where "st' = st" "out = Inl e"
    | vs cur where
        "exec_statement (InsertInto [ColDate, ColAmount, ColCategory, ColSubcategory, ColNote])
           vs st = Inr (st', cur)"
        "out = Inr (AddOk (lastrowid cur) ''Expense added successfully'') \<or> (\<exists>e. out = Inl e)"
    by blast
  then show ?thesis
  proof cases
    case 1
    with res show ?thesis by (simp add: database_error_def)
  next
    case 2
    from exec_insert_cases [OF 2(1)]
    have "appended st st'" "lastrowid cur = largest_rowid st + 1" by simp_all
    with 2(2) res show ?thesis by (auto simp: database_error_def split: if_splits)
  qed
qed

lemma update_expense_body_form:
  "update_expense_body st env d c a sub n =
     async_with env st (\<lambda>k.
       case await (execute env k
           (UpdateSet (ColAmount # (if n = None then [] else [ColNote]))
              ([Eq ColDate, Eq ColCategory] @ (if sub = None then [] else [Eq ColSubcategory])))
           ([py_number a] @ (if n = None then [] else [py_text n]) @
            [py_text d, py_text c] @ (if sub = None then [] else [py_text sub]))) of
         Inl e \<Rightarrow> (k, Inl e)
       | Inr (c1, cur) \<Rightarrow>
           (case await (commit env c1) of
              Inl e \<Rightarrow> (c1, Inl e)
            | Inr c2 \<Rightarrow> (c2, Inr (UpdateOk (rowcount cur) ''Expense updated successfully''))))"
  by (simp add: update_expense_body_def Let_def)

lemma delete_expense_body_form:
  "delete_expense_body st env d c sub =
     async_with env st (\<lambda>k.
       case await (execute env k
           (DeleteFrom ([Eq ColDate, Eq ColCategory] @ (if sub = None then [] else [Eq ColSubcategory])))
           ([py_text d, py_text c] @ (if sub = None then [] else [py_text sub]))) of
         Inl e \<Rightarrow> (k, Inl e)
       | Inr (c1, cur) \<Rightarrow>
           (case await (commit env c1) of
              Inl e \<Rightarrow> (c1, Inl e)
            | Inr c2 \<Rightarrow> (c2, Inr (DeleteOk (rowcount cur) ''Expense deleted successfully''))))"
  by (simp add: delete_expense_body_def Let_def)

lemma update_expense_ids:
  "map e_id (expenses (fst (update_expense st env d c a sub n))) = map e_id (expenses st) \<and>
   sqlite_sequence (fst (update_expense st env d c a sub n)) = sqlite_sequence st"
proof -
  obtain st' out where b: "update_expense_body st env d c a sub n = (st', out)"
    by (cases "update_expense_body st env d c a sub n")
  then have fst: "fst (update_expense st env d c a sub n) = st'"
    by (simp add: update_expense_def split: sum.splits)
  from transact [OF b [unfolded update_expense_body_form]]
  consider "st' = st"
    | vs cur where "exec_statement
          (UpdateSet (ColAmount # (if n = None then [] else [ColNote]))
             ([Eq ColDate, Eq ColCategory] @ (if sub = None then [] else [Eq ColSubcategory])))
          vs st
        = Inr (st', cur)"
    by blast
  then show ?thesis
  proof cases
    case 1
    with fst show ?thesis by simp
  next
    case 2
    from exec_update_ids [OF 2] fst show ?thesis by simp
  qed
qed

lemma delete_expense_rows:
  "\<exists>P. fst (delete_expense st env d c sub) = st\<lparr>expenses := filter P (expenses st)\<rparr>"
proof -
  obtain st' out where b: "delete_expense_body st env d c sub = (st', out)"
    by (cases "delete_expense_body st env d c sub")
  then have fst: "fst (delete_expense st env d c sub) = st'"
    by (simp add: delete_expense_def split: sum.splits)
  have ex: "exec_statement (DeleteFrom ws) ps st = Inr (w, cur) \<Longrightarrow>
      w = st\<lparr>expenses := filter (\<lambda>r. \<not> where_holds ws ps r) (expenses st)\<rparr>" for ws ps w cur
    by (auto simp: exec_statement_def exec_delete_def split: if_splits)
  from transact [OF b [unfolded delete_expense_body_form]]
  consider "st' = st" | ws ps cur where "exec_statement (DeleteFrom ws) ps st = Inr (st', cur)"
    by blast
  then show ?thesis
  proof cases
    case 1
    have "st = st\<lparr>expenses := filter (\<lambda>r. True) (expenses st)\<rparr>" by simp
    with 1 fst show ?thesis by metis
  next
    case 2
    from ex [OF 2] fst show ?thesis by blast
  qed
qed


lemma database_error_not_added: "database_error e \<noteq> AddOk j m"
  by (simp add: database_error_def)

lemma update_expense_not_added: "snd (update_expense st env d c a sub n) \<noteq> AddOk j m"
proof -
  obtain st' out where b: "update_expense_body st env d c a sub n = (st', out)"
    by (cases "update_expense_body st env d c a sub n")
  from transact [OF b [unfolded update_expense_body_form]]
  have "(\<exists>e. out = Inl e) \<or> (\<exists>k. out = Inr (UpdateOk k ''Expense updated successfully''))"
    by blast
  with b database_error_not_added show ?thesis
    by (auto simp: update_expense_def)
qed

lemma delete_expense_not_added: "snd (delete_expense st env d c sub) \<noteq> AddOk j m"
proof -
  obtain st' out where b: "delete_expense_body st env d c sub = (st', out)"
    by (cases "delete_expense_body st env d c sub")
  from transact [OF b [unfolded delete_expense_body_form]]
  have "(\<exists>e. out = Inl e) \<or> (\<exists>k. out = Inr (DeleteOk k ''Expense deleted successfully''))"
    by blast
  with b database_error_not_added show ?thesis
    by (auto simp: delete_expense_def)
qed

lemma list_expenses_is_error: "\<exists>m. snd (list_expenses st env s e) = StatusError m"
  by (auto simp: list_expenses_def list_expenses_body_def async_with_def connect_def close_def
      execute_def exec_statement_def exec_select_def iterate_def Let_def
      split: option.splits sum.splits prod.splits)

lemma summarize_is_error: "\<exists>m. snd (summarize st env s e c) = StatusError m"
  by (auto simp: summarize_def summarize_body_def async_with_def connect_def close_def
      execute_def exec_statement_def exec_select_sum_def iterate_def Let_def
      split: option.splits sum.splits prod.splits)

lemma tool_call_added:
  assumes "tool_call st ec = (s, AddOk j m)"
  shows "appended st s \<and> j = largest_rowid st + 1"
proof -
  obtain env cl where ec: "ec = (env, cl)" by (cases ec)
  show ?thesis
  proof (cases cl)
    case (AddExpense d a c sub n)
    with assms ec add_expense_cases [of st env d a c sub n s "AddOk j m"] show ?thesis
      by simp
  next
    case (UpdateExpense d c a sub n)
    with assms ec update_expense_not_added [of st env d c a sub n j m] show ?thesis
      by simp
  next
    case (DeleteExpense d c sub)
    with assms ec delete_expense_not_added [of st env d c sub j m] show ?thesis
      by simp
  next
    case (ListExpenses b e)
    with assms ec list_expenses_is_error [of st env b e] show ?thesis
      by auto
  next
    case (Summarize b e c)
    with assms ec summarize_is_error [of st env b e c] show ?thesis
      by auto
  qed
qed

lemma tool_call_ids:
  "\<exists>P ns. map e_id (expenses (fst (tool_call st ec))) = map e_id (filter P (expenses st)) @ ns \<and>
     (ns = [] \<and> sqlite_sequence (fst (tool_call st ec)) = sqlite_sequence st \<or>
      ns = [largest_rowid st + 1] \<and>
      sqlite_sequence (fst (tool_call st ec)) = largest_rowid st + 1)"
proof -
  obtain env cl where ec: "ec = (env, cl)" by (cases ec)
  have same: "fst (tool_call st ec) = st \<Longrightarrow> ?thesis"
    by (rule exI [of _ "\<lambda>r. True"], rule exI [of _ "[]"]) simp
  show ?thesis
  proof (cases cl)
    case (AddExpense d a c sub n)
    obtain st' res where r: "add_expense st env d a c sub n = (st', res)"
      by (cases "add_expense st env d a c sub n")
    from add_expense_cases [OF r] have "st' = st \<or> appended st st'" by simp
    then show ?thesis
    proof
      assume "st' = st"
      with r ec AddExpense same show ?thesis by simp
    next
      assume "appended st st'"
      with r ec AddExpense show ?thesis
        by (intro exI [of _ "\<lambda>r. True"] exI [of _ "[largest_rowid st + 1]"])
           (auto simp: appended_def)
    qed
  next
    case (UpdateExpense d c a sub n)
    with ec update_expense_ids [of st env d c a sub n] show ?thesis
      by (intro exI [of _ "\<lambda>r. True"] exI [of _ "[]"]) simp
  next
    case (DeleteExpense d c sub)
    from delete_expense_rows [of st env d c sub] obtain P where
      "fst (delete_expense st env d c sub) = st\<lparr>expenses := filter P (expenses st)\<rparr>" ..
    with ec DeleteExpense show ?thesis
      by (intro exI [of _ P] exI [of _ "[]"]) simp
  next
    case (ListExpenses b e)
    with ec same list_expenses_store [of st env b e] show ?thesis by simp
  next
    case (Summarize b e c)
    with ec same summarize_store [of st env b e c] show ?thesis by simp
  qed
qed

lemma tool_call_bounded:
  assumes "ids_bounded st"
  shows "ids_bounded (fst (tool_call st ec)) \<and>
         sqlite_sequence st \<le> sqlite_sequence (fst (tool_call st ec))"
proof -
  let ?st' = "fst (tool_call st ec)"
  from assms have b: "\<forall>i\<in>set (map e_id (expenses st)). i \<le> sqlite_sequence st"
    by (simp add: ids_bounded_def list_all_iff)
  from tool_call_ids [of st ec] obtain P ns where
    ids: "map e_id (expenses ?st') = map e_id (filter P (expenses st)) @ ns" and
    ns: "ns = [] \<and> sqlite_sequence ?st' = sqlite_sequence st \<or>
         ns = [largest_rowid st + 1] \<and> sqlite_sequence ?st' = largest_rowid st + 1"
    by blast
  from ns largest_rowid_bounded [OF assms]
  have le: "sqlite_sequence st \<le> sqlite_sequence ?st'"
    and new: "\<forall>i\<in>set ns. i \<le> sqlite_sequence ?st'"
    by auto
  have "\<forall>i\<in>set (map e_id (expenses ?st')). i \<le> sqlite_sequence ?st'"
    unfolding ids using b le new by fastforce
  then have "ids_bounded ?st'"
    by (simp add: ids_bounded_def list_all_iff)
  with le show ?thesis by simp
qed

lemma history_Cons: "history st (ec # ecs) = st # history (fst (tool_call st ec)) ecs"
  by (simp add: history_def)

lemma history_first: "st \<in> set (history st ecs)"
  by (simp add: history_def)

lemma history_bounded:
  "ids_bounded st \<Longrightarrow> s \<in> set (history st ecs) \<Longrightarrow>
     ids_bounded s \<and> sqlite_sequence s \<le> sqlite_sequence (last (history st ecs))"
proof (induction ecs arbitrary: st s)
  case Nil
  then show ?case by (simp add: history_def)
next
  case (Cons ec ecs)
  let ?st' = "fst (tool_call st ec)"
  have st': "ids_bounded ?st'" "sqlite_sequence st \<le> sqlite_sequence ?st'"
    using tool_call_bounded [OF Cons.prems(1)] by simp_all
  have last: "last (history st (ec # ecs)) = last (history ?st' ecs)"
    by (simp add: history_def)
  from Cons.prems(2) have "s = st \<or> s \<in> set (history ?st' ecs)"
    by (simp add: history_Cons)
  then show ?case
  proof
    assume "s = st"
    moreover from Cons.IH [OF st'(1) history_first]
    have "sqlite_sequence ?st' \<le> sqlite_sequence (last (history ?st' ecs))" by simp
    ultimately show ?thesis using Cons.prems(1) st'(2) last by simp
  next
    assume "s \<in> set (history ?st' ecs)"
    from Cons.IH [OF st'(1) this] last show ?thesis by simp
  qed
qed

lemma serve_added:
  "(s, AddOk j m) \<in> set (serve st ecs) \<Longrightarrow>
     (\<exists>r\<in>set (expenses s). e_id r = j) \<and> s \<in> set (history st ecs)"
proof (induction ecs arbitrary: st)
  case Nil
  then show ?case by simp
next
  case (Cons ec ecs)
  from Cons.prems
  have "tool_call st ec = (s, AddOk j m) \<or> (s, AddOk j m) \<in> set (serve (fst (tool_call st ec)) ecs)"
    by auto
  then show ?case
  proof
    assume t: "tool_call st ec = (s, AddOk j m)"
    from tool_call_added [OF t] have "\<exists>r\<in>set (expenses s). e_id r = j"
      by (auto simp: appended_def)
    moreover from t have "s \<in> set (history st (ec # ecs))"
      by (simp add: history_Cons history_first)
    ultimately show ?thesis by simp
  next
    assume "(s, AddOk j m) \<in> set (serve (fst (tool_call st ec)) ecs)"
    from Cons.IH [OF this] show ?thesis by (simp add: history_Cons)
  qed
qed

text \<open>
  Claim C9: start from a table in which no rowid exceeds the recorded sequence value (the
  empty table of a first start is one) and let the server answer any calls, under any
  storage faults. When a further \<^verbatim>\<open>add_expense\<close> answers ok with an id, then
  \<^item> that id is larger than the id of every row of every state the table went through,
    so it is new, and no id of a row present or deleted before is given out again;
  \<^item> it is larger than every id an earlier successful add answered;
  \<^item> the new row, with that id, is appended to the table;
  \<^item> and in any state, any call leaves the ids of the rows it keeps as they were, in
    their order, and an id it adds is larger than all ids present.
\<close>

theorem ids_unique_increasing_never_reused:
  assumes "ids_bounded st0"
    and "tool_call (last (history st0 ecs)) (env, AddExpense d a c sub n) = (st', AddOk i m)"
  shows "(\<forall>s\<in>set (history st0 ecs). \<forall>r\<in>set (expenses s). e_id r < i) \<and>
         (\<forall>(s, res)\<in>set (serve st0 ecs). \<forall>j m'. res = AddOk j m' \<longrightarrow> j < i) \<and>
         (\<exists>r. expenses st' = expenses (last (history st0 ecs)) @ [r] \<and> e_id r = i) \<and>
         (\<forall>s ec. \<exists>P ns.
            map e_id (expenses (fst (tool_call s ec))) = map e_id (filter P (expenses s)) @ ns \<and>
            (\<forall>j\<in>set ns. \<forall>r\<in>set (expenses s). e_id r < j))"
proof -
  let ?last = "last (history st0 ecs)"
  have in_hist: "?last \<in> set (history st0 ecs)"
    by (rule last_in_set) (simp add: history_def)
  from history_bounded [OF assms(1) in_hist] have lb: "ids_bounded ?last" by simp
  from tool_call_added [OF assms(2)]
  have app: "appended ?last st'" and i: "i = largest_rowid ?last + 1" by simp_all
  from i largest_rowid_bounded [OF lb] have i': "i = sqlite_sequence ?last + 1" by simp
  have fresh: "e_id r < i" if "s \<in> set (history st0 ecs)" "r \<in> set (expenses s)" for s r
  proof -
    from history_bounded [OF assms(1) that(1)]
    have "ids_bounded s" "sqlite_sequence s \<le> sqlite_sequence ?last" by simp_all
    with that(2) have "e_id r \<le> sqlite_sequence ?last"
      by (fastforce simp: ids_bounded_def list_all_iff)
    with i' show ?thesis by simp
  qed
  have incr: "j < i" if "(s, AddOk j m') \<in> set (serve st0 ecs)" for s j m'
    using serve_added [OF that] fresh by blast
  have row: "\<exists>r. expenses st' = expenses ?last @ [r] \<and> e_id r = i"
    using app i by (auto simp: appended_def)
  have keep: "\<exists>P ns.
      map e_id (expenses (fst (tool_call s ec))) = map e_id (filter P (expenses s)) @ ns \<and>
      (\<forall>j\<in>set ns. \<forall>r\<in>set (expenses s). e_id r < j)" for s ec
  proof -
    from tool_call_ids [of s ec] obtain P ns where
      ids: "map e_id (expenses (fst (tool_call s ec))) = map e_id (filter P (expenses s)) @ ns"
      and ns: "ns = [] \<or> ns = [largest_rowid s + 1]"
      by blast
    from ns largest_rowid_ge(2) [of _ s]
    have "\<forall>j\<in>set ns. \<forall>r\<in>set (expenses s). e_id r < j" by fastforce
    with ids show ?thesis by blast
  qed
  from fresh incr row keep show ?thesis by blast
qed

theorem ids_unique_increasing_never_reused_witness:
  "init_db None None = Inr empty_store \<and>
   ids_bounded empty_store \<and>
   tool_call (last (history empty_store
        [(no_faults, AddExpense (Some ''2024-01-05'') (Some (IntNum 10)) (Some ''Food'') (Some []) (Some [])),
         (no_faults, DeleteExpense (Some ''2024-01-05'') (Some ''Food'') None)]))
      (no_faults, AddExpense (Some ''2024-01-09'') (Some (IntNum 20)) (Some ''Travel'') (Some []) (Some ''memo''))
     = (\<lparr>expenses = [example_row 2 ''2024-01-09'' ''Travel'' [] 20], sqlite_sequence = 2\<rparr>,
        AddOk 2 ''Expense added successfully'') \<and>
   list_all (\<lambda>s. list_all (\<lambda>r. e_id r < 2) (expenses s))
     (history empty_store
        [(no_faults, AddExpense (Some ''2024-01-05'') (Some (IntNum 10)) (Some ''Food'') (Some []) (Some [])),
         (no_faults, DeleteExpense (Some ''2024-01-05'') (Some ''Food'') None)])"
proof -
  let ?ecs = "[(no_faults, AddExpense (Some ''2024-01-05'') (Some (IntNum 10)) (Some ''Food'') (Some []) (Some [])),
               (no_faults, DeleteExpense (Some ''2024-01-05'') (Some ''Food'') None)]"
  have first: "add_expense empty_store no_faults (Some ''2024-01-05'') (Some (IntNum 10)) (Some ''Food'')
        (Some []) (Some []) =
      (\<lparr>expenses = [\<lparr>e_id = 1, e_date = SqlText ''2024-01-05'', e_amount = SqlReal 10,
            e_category = SqlText ''Food'', e_subcategory = SqlText [], e_note = SqlText []\<rparr>],
        sqlite_sequence = 1\<rparr>, AddOk 1 ''Expense added successfully'')"
    by (simp add: add_expense_def add_expense_body_def async_with_no_faults execute_no_faults
        commit_no_faults exec_statement_def exec_insert_def largest_rowid_def default_row_def
        not_null_cols_def bind_parameters_def py_text_def py_number_def double_of_small_int empty_store_def Let_def)
  have hist: "history empty_store ?ecs =
      [empty_store,
       \<lparr>expenses = [\<lparr>e_id = 1, e_date = SqlText ''2024-01-05'', e_amount = SqlReal 10,
            e_category = SqlText ''Food'', e_subcategory = SqlText [], e_note = SqlText []\<rparr>],
        sqlite_sequence = 1\<rparr>,
       \<lparr>expenses = [], sqlite_sequence = 1\<rparr>]"
    by (simp add: history_def first delete_expense_no_faults spec_matches_def)
  have b: "ids_bounded empty_store"
    by (simp add: ids_bounded_def empty_store_def)
  have call: "tool_call (last (history empty_store ?ecs))
      (no_faults, AddExpense (Some ''2024-01-09'') (Some (IntNum 20)) (Some ''Travel'') (Some []) (Some ''memo''))
     = (\<lparr>expenses = [example_row 2 ''2024-01-09'' ''Travel'' [] 20], sqlite_sequence = 2\<rparr>,
        AddOk 2 ''Expense added successfully'')"
    unfolding hist
    by (simp add: add_expense_def add_expense_body_def async_with_no_faults execute_no_faults
        commit_no_faults exec_statement_def exec_insert_def largest_rowid_def default_row_def
        not_null_cols_def bind_parameters_def py_text_def py_number_def double_of_small_int example_row_def Let_def)
  from ids_unique_increasing_never_reused [OF b call]
  have "\<forall>s\<in>set (history empty_store ?ecs). \<forall>r\<in>set (expenses s). e_id r < 2"
    by blast
  then have "list_all (\<lambda>s. list_all (\<lambda>r. e_id r < 2) (expenses s)) (history empty_store ?ecs)"
    by (simp add: list_all_iff)
  moreover have "init_db None None = Inr empty_store"
    by (simp add: init_db_def empty_store_def)
  ultimately show ?thesis using b call by simp
qed

subsection \<open>Failures of the storage layer\<close>

lemma transact_fault:
  assumes "env s = Some x"
  shows "\<exists>e. snd (async_with env st (\<lambda>k.
       case await (execute env k q ps) of
         Inl e \<Rightarrow> (k, Inl e)
       | Inr (c1, cur) \<Rightarrow>
           (case await (commit env c1) of
              Inl e \<Rightarrow> (c1, Inl e)
            | Inr c2 \<Rightarrow> (c2, Inr (f cur))))) = Inl e"
  using assms
  by (cases s)
     (auto simp: async_with_def connect_def execute_def commit_def close_def
      split: option.splits sum.splits prod.splits)

lemma read_fault:
  assumes "env s = Some x" and "s \<noteq> Commit"
  shows "\<exists>e. snd (async_with env st (\<lambda>k.
       case await (execute env k q ps) of
         Inl e \<Rightarrow> (k, Inl e)
       | Inr (c1, cur) \<Rightarrow> h c1 cur)) = Inl e"
  using assms
  by (cases s)
     (auto simp: async_with_def connect_def execute_def close_def
      split: option.splits sum.splits prod.splits)

lemma handler_cases:
  "snd (case p of (st', Inr res) \<Rightarrow> (st', res) | (st', Inl e) \<Rightarrow> (st', h e)) =
     (case snd p of Inr res \<Rightarrow> res | Inl e \<Rightarrow> h e)"
  by (cases p) (simp split: sum.splits)

text \<open>
  Claim C5, as the code has it. Whatever the storage layer raises inside a tool function
  (and a fault at any call into the storage layer that the function makes does raise
  there), the function returns an error dictionary. In \<^verbatim>\<open>add_expense\<close>,
  \<^verbatim>\<open>update_expense\<close> and \<^verbatim>\<open>delete_expense\<close> the message is the read-only message when the
  lower-cased text of the exception contains \<^verbatim>\<open>readonly\<close>, and \<^verbatim>\<open>Database error:\<close>
  with the text otherwise. In \<^verbatim>\<open>list_expenses\<close> and \<^verbatim>\<open>summarize\<close> the message is the
  function's own prefix with the text, whatever the text says.
\<close>

theorem storage_failure_gives_error_result:
  "(env s = Some x \<longrightarrow>
      (\<exists>e. snd (add_expense_body st env d a c sub n) = Inl e) \<and>
      (\<exists>e. snd (update_expense_body st env d c a sub n) = Inl e) \<and>
      (\<exists>e. snd (delete_expense_body st env d c sub) = Inl e)) \<and>
   (env s = Some x \<and> s \<noteq> Commit \<longrightarrow>
      (\<exists>e. snd (list_expenses_body st env b f) = Inl e) \<and>
      (\<exists>e. snd (summarize_body st env b f c) = Inl e)) \<and>
   (snd (add_expense_body st env d a c sub n) = Inl e \<longrightarrow>
      snd (add_expense st env d a c sub n) =
        (if py_in ''readonly'' (lower e)
         then StatusError ''Database is in read-only mode. Check file permissions.''
         else StatusError (''Database error: '' @ e))) \<and>
   (snd (update_expense_body st env d c a sub n) = Inl e \<longrightarrow>
      snd (update_expense st env d c a sub n) =
        (if py_in ''readonly'' (lower e)
         then StatusError ''Database is in read-only mode. Check file permissions.''
         else StatusError (''Database error: '' @ e))) \<and>
   (snd (delete_expense_body st env d c sub) = Inl e \<longrightarrow>
      snd (delete_expense st env d c sub) =
        (if py_in ''readonly'' (lower e)
         then StatusError ''Database is in read-only mode. Check file permissions.''
         else StatusError (''Database error: '' @ e))) \<and>
   (snd (list_expenses_body st env b f) = Inl e \<longrightarrow>
      snd (list_expenses st env b f) = StatusError (''Error listing expenses: '' @ e)) \<and>
   (snd (summarize_body st env b f c) = Inl e \<longrightarrow>
      snd (summarize st env b f c) = StatusError (''Error summarizing expenses: '' @ e))"
proof -
  have raised: "(\<exists>e. snd (add_expense_body st env d a c sub n) = Inl e) \<and>
      (\<exists>e. snd (update_expense_body st env d c a sub n) = Inl e) \<and>
      (\<exists>e. snd (delete_expense_body st env d c sub) = Inl e)" if "env s = Some x"
  proof (intro conjI)
    show "\<exists>e. snd (add_expense_body st env d a c sub n) = Inl e"
      unfolding add_expense_body_def by (rule transact_fault [of env s x, OF that])
    show "\<exists>e. snd (update_expense_body st env d c a sub n) = Inl e"
      unfolding update_expense_body_form by (rule transact_fault [of env s x, OF that])
    show "\<exists>e. snd (delete_expense_body st env d c sub) = Inl e"
      unfolding delete_expense_body_form by (rule transact_fault [of env s x, OF that])
  qed
  have raised_read: "(\<exists>e. snd (list_expenses_body st env b f) = Inl e) \<and>
      (\<exists>e. snd (summarize_body st env b f c) = Inl e)" if "env s = Some x" "s \<noteq> Commit"
  proof (intro conjI)
    show "\<exists>e. snd (list_expenses_body st env b f) = Inl e"
      unfolding list_expenses_body_def Let_def by (rule read_fault [of env s x, OF that])
    show "\<exists>e. snd (summarize_body st env b f c) = Inl e"
      unfolding summarize_body_def Let_def by (rule read_fault [of env s x, OF that])
  qed
  have handled:
    "snd (add_expense_body st env d a c sub n) = Inl e \<Longrightarrow>
       snd (add_expense st env d a c sub n) = database_error e"
    "snd (update_expense_body st env d c a sub n) = Inl e \<Longrightarrow>
       snd (update_expense st env d c a sub n) = database_error e"
    "snd (delete_expense_body st env d c sub) = Inl e \<Longrightarrow>
       snd (delete_expense st env d c sub) = database_error e"
    "snd (list_expenses_body st env b f) = Inl e \<Longrightarrow>
       snd (list_expenses st env b f) = StatusError (''Error listing expenses: '' @ e)"
    "snd (summarize_body st env b f c) = Inl e \<Longrightarrow>
       snd (summarize st env b f c) = StatusError (''Error summarizing expenses: '' @ e)"
    by (simp_all add: add_expense_def update_expense_def delete_expense_def list_expenses_def
        summarize_def handler_cases)
  from raised raised_read handled show ?thesis
    by (simp add: database_error_def)
qed

theorem storage_failure_gives_error_result_witness:
  "snd (add_expense empty_store (no_faults(Execute := Some ''attempt to write a readonly database''))
          (Some ''2024-01-05'') (Some (IntNum 10)) (Some ''Food'') (Some []) (Some [])) =
     StatusError ''Database is in read-only mode. Check file permissions.'' \<and>
   snd (delete_expense empty_store (no_faults(Connect := Some ''unable to open database file''))
          (Some ''2024-01-05'') (Some ''Food'') None) =
     StatusError ''Database error: unable to open database file'' \<and>
   snd (summarize empty_store (no_faults(Close := Some ''disk I/O error''))
          (Some ''2024-01-01'') (Some ''2024-12-31'') None) =
     StatusError ''Error summarizing expenses: disk I/O error''"
proof -
  let ?ro = "''attempt to write a readonly database''"
  have ro: "py_in ''readonly'' (lower ?ro)" by code_simp
  have nro: "\<not> py_in ''readonly'' (lower ''unable to open database file'')" by code_simp
  have a: "snd (add_expense_body empty_store (no_faults(Execute := Some ?ro))
      (Some ''2024-01-05'') (Some (IntNum 10)) (Some ''Food'') (Some []) (Some [])) = Inl ?ro"
    by (simp add: add_expense_body_def async_with_def connect_def execute_def close_def
        no_faults_def)
  have d: "snd (delete_expense_body empty_store
      (no_faults(Connect := Some ''unable to open database file''))
      (Some ''2024-01-05'') (Some ''Food'') None) = Inl ''unable to open database file''"
    by (simp add: delete_expense_body_def async_with_def connect_def)
  have s: "snd (summarize_body empty_store (no_faults(Close := Some ''disk I/O error''))
      (Some ''2024-01-01'') (Some ''2024-12-31'') None) = Inl ''disk I/O error''"
    by (simp add: summarize_body_def async_with_def connect_def execute_def close_def
        no_faults_def bind_parameters_def bind_py_text exec_statement_def exec_select_sum_def
        iterate_def Let_def)
  from a ro storage_failure_gives_error_result
      [of "no_faults(Execute := Some ?ro)" Execute ?ro empty_store "Some ''2024-01-05''"
          "Some (IntNum 10)" "Some ''Food''" "Some []" "Some []" None None ?ro]
  have 1: "snd (add_expense empty_store (no_faults(Execute := Some ?ro))
          (Some ''2024-01-05'') (Some (IntNum 10)) (Some ''Food'') (Some []) (Some [])) =
     StatusError ''Database is in read-only mode. Check file permissions.''"
    by simp
  from d nro storage_failure_gives_error_result
      [of "no_faults(Connect := Some ''unable to open database file'')" Connect
          "''unable to open database file''" empty_store "Some ''2024-01-05''"
          None "Some ''Food''" None None None None "''unable to open database file''"]
  have 2: "snd (delete_expense empty_store
          (no_faults(Connect := Some ''unable to open database file''))
          (Some ''2024-01-05'') (Some ''Food'') None) =
     StatusError ''Database error: unable to open database file''"
    by simp
  from s storage_failure_gives_error_result
      [of "no_faults(Close := Some ''disk I/O error'')" Close "''disk I/O error''" empty_store
          None None None None None "Some ''2024-01-01''" "Some ''2024-12-31''" "''disk I/O error''"]
  have 3: "snd (summarize empty_store (no_faults(Close := Some ''disk I/O error''))
          (Some ''2024-01-01'') (Some ''2024-12-31'') None) =
     StatusError ''Error summarizing expenses: disk I/O error''"
    by simp
  from 1 2 3 show ?thesis by simp
qed

text \<open>
  Claim C5 as stated fails for the two reading functions: a failure whose text says
  \<^verbatim>\<open>readonly\<close> is reported by \<^verbatim>\<open>list_expenses\<close> under its own prefix, not by the
  read-only message.
\<close>

theorem list_expenses_read_only_counterexample:
  "py_in ''readonly'' (lower ''attempt to write a readonly database'') \<and>
   snd (list_expenses empty_store
          (no_faults(Execute := Some ''attempt to write a readonly database''))
          (Some ''2024-01-01'') (Some ''2024-12-31'')) =
     StatusError ''Error listing expenses: attempt to write a readonly database'' \<and>
   snd (list_expenses empty_store
          (no_faults(Execute := Some ''attempt to write a readonly database''))
          (Some ''2024-01-01'') (Some ''2024-12-31'')) \<noteq>
     StatusError ''Database is in read-only mode. Check file permissions.''"
proof -
  have "py_in ''readonly'' (lower ''attempt to write a readonly database'')" by code_simp
  then show ?thesis
    by (simp add: list_expenses_def list_expenses_body_def async_with_def connect_def
        execute_def close_def no_faults_def)
qed

subsection \<open>What the two queries select\<close>

text \<open>
  The statements that the reading functions execute do select what the specification
  describes; the lemmas of this subsection are about the cursor that \<^verbatim>\<open>execute\<close> yields.
  The query of \<^verbatim>\<open>list_expenses\<close> holds the rows in the range, in ascending id, with
  their six columns. The query of \<^verbatim>\<open>summarize\<close> holds one line per category of the
  selected rows, with the sum of their amounts, in ascending order of the category.
\<close>

lemma where_between_date:
  "where_holds [Between ColDate] [SqlText b, SqlText f] = spec_in_range b f"
proof (rule ext)
  fix r
  show "where_holds [Between ColDate] [SqlText b, SqlText f] r = spec_in_range b f r"
    by (cases "e_date r") (simp_all add: spec_in_range_def)
qed

lemma where_between_date_category:
  "where_holds [Between ColDate, Eq ColCategory] [SqlText b, SqlText f, SqlText c] =
     (\<lambda>r. spec_in_range b f r \<and> e_category r = SqlText c)"
proof (rule ext)
  fix r
  show "where_holds [Between ColDate, Eq ColCategory] [SqlText b, SqlText f, SqlText c] r =
      (spec_in_range b f r \<and> e_category r = SqlText c)"
    by (cases "e_date r") (simp_all add: spec_in_range_def sql_eq_text)
qed

lemma set_insert_row: "set (insert_row ob r xs) = insert r (set xs)"
  by (induction xs) auto

lemma length_insert_row: "length (insert_row ob r xs) = Suc (length xs)"
  by (induction xs) auto

lemma sorted_insert_row_id:
  "sorted (map e_id xs) \<Longrightarrow> sorted (map e_id (insert_row ColId r xs))"
  by (induction xs) (auto simp: set_insert_row)

lemma order_by_id:
  "sorted (map e_id (order_by ColId rs)) \<and> set (order_by ColId rs) = set rs \<and>
   length (order_by ColId rs) = length rs"
  unfolding order_by_def
  by (induction rs) (simp_all add: sorted_insert_row_id set_insert_row length_insert_row)

lemma list_expenses_query:
  "await (execute no_faults k
      (SelectFrom [ColId, ColDate, ColAmount, ColCategory, ColSubcategory, ColNote]
         [Between ColDate] ColId)
      [py_text (Some b), py_text (Some f)]) =
   Inr (k, \<lparr>lastrowid = 0, rowcount = - 1,
            description = [''id'', ''date'', ''amount'', ''category'', ''subcategory'', ''note''],
            pending = map (\<lambda>r. [SqlInt (e_id r), e_date r, e_amount r, e_category r,
                                  e_subcategory r, e_note r])
                        (order_by ColId (filter (spec_in_range b f) (expenses (working k))))\<rparr>)"
  by (simp add: execute_no_faults exec_statement_def exec_select_def bind_parameters_def py_text_def
      where_between_date del: where_holds.simps)

lemma accumulate_keys: "fst ` set (accumulate k a gs) = insert k (fst ` set gs)"
  by (induction k a gs rule: accumulate.induct) auto

lemma accumulate_distinct: "distinct (map fst gs) \<Longrightarrow> distinct (map fst (accumulate k a gs))"
  by (induction k a gs rule: accumulate.induct) (auto simp: accumulate_keys)

lemma accumulate_map_of:
  "map_of (accumulate k a gs) =
     (map_of gs)(k \<mapsto> (case map_of gs k of None \<Rightarrow> a | Some t \<Rightarrow> t + a))"
  by (induction k a gs rule: accumulate.induct) (auto simp: fun_eq_iff)

lemma group_keys:
  "fst ` set (fold (\<lambda>r. accumulate (e_category r) (numeric (e_amount r))) rs gs) =
     fst ` set gs \<union> e_category ` set rs"
  by (induction rs arbitrary: gs) (auto simp: accumulate_keys)

lemma group_distinct:
  "distinct (map fst gs) \<Longrightarrow>
   distinct (map fst (fold (\<lambda>r. accumulate (e_category r) (numeric (e_amount r))) rs gs))"
  by (induction rs arbitrary: gs) (simp_all add: accumulate_distinct)

lemma group_totals:
  "map_of (fold (\<lambda>r. accumulate (e_category r) (numeric (e_amount r))) rs gs) k =
     (if k \<in> fst ` set gs \<union> e_category ` set rs
      then Some ((case map_of gs k of None \<Rightarrow> 0 | Some t \<Rightarrow> t) + spec_total rs k)
      else None)"
proof (induction rs arbitrary: gs)
  case Nil
  show ?case
  proof (cases "map_of gs k")
    case None
    then show ?thesis by (simp add: map_of_eq_None_iff)
  next
    case (Some t)
    then have "k \<in> fst ` set gs" by (metis map_of_eq_None_iff option.distinct(1))
    with Some show ?thesis by (simp add: spec_total_def)
  qed
next
  case (Cons r rs)
  let ?gs = "accumulate (e_category r) (numeric (e_amount r)) gs"
  have tot: "(case map_of ?gs k of None \<Rightarrow> 0 | Some t \<Rightarrow> t) =
      (case map_of gs k of None \<Rightarrow> 0 | Some t \<Rightarrow> t) +
      (if e_category r = k then numeric (e_amount r) else 0)"
    by (simp add: accumulate_map_of split: option.splits)
  have sp: "spec_total (r # rs) k =
      (if e_category r = k then numeric (e_amount r) else 0) + spec_total rs k"
    by (simp add: spec_total_def)
  have keys: "fst ` set ?gs \<union> e_category ` set rs = fst ` set gs \<union> e_category ` set (r # rs)"
    by (auto simp: accumulate_keys)
  show ?case
    using Cons.IH [of ?gs] unfolding keys by (simp add: tot sp)
qed

lemma set_insert_group: "set (insert_group g xs) = insert g (set xs)"
  by (induction xs) auto

lemma set_sorted_groups: "set (foldr insert_group gs []) = set gs"
  by (induction gs) (simp_all add: set_insert_group)

lemma distinct_insert_group:
  "distinct (map fst (insert_group g xs)) = (fst g \<notin> fst ` set xs \<and> distinct (map fst xs))"
  by (induction xs) (auto simp: set_insert_group)

lemma distinct_sorted_groups:
  "distinct (map fst (foldr insert_group gs [])) = distinct (map fst gs)"
  by (induction gs) (simp_all add: distinct_insert_group set_sorted_groups)

lemma sql_le_text_total: "is_text u \<Longrightarrow> is_text v \<Longrightarrow> \<not> sql_le u v \<Longrightarrow> sql_le v u"
  by (cases u; cases v) (auto simp: is_text_def)

lemma sql_le_text_trans: "is_text v \<Longrightarrow> sql_le u v \<Longrightarrow> sql_le v w \<Longrightarrow> sql_le u w"
  by (cases u; cases v; cases w) (auto simp: is_text_def)

lemma sorted_insert_group:
  assumes "sorted_wrt (\<lambda>x y. sql_le (fst x) (fst y)) xs"
    and "is_text (fst g)" and "\<forall>x\<in>set xs. is_text (fst x)"
  shows "sorted_wrt (\<lambda>x y. sql_le (fst x) (fst y)) (insert_group g xs)"
  using assms
proof (induction xs)
  case Nil
  then show ?case by simp
next
  case (Cons x xs)
  show ?case
  proof (cases "sql_le (fst g) (fst x)")
    case True
    with Cons.prems have "\<forall>y\<in>set xs. sql_le (fst g) (fst y)"
      using sql_le_text_trans [of "fst x" "fst g"] by auto
    with True Cons.prems show ?thesis by simp
  next
    case False
    with Cons.prems have "sql_le (fst x) (fst g)"
      using sql_le_text_total [of "fst g" "fst x"] by simp
    with False Cons show ?thesis by (auto simp: set_insert_group)
  qed
qed

lemma sorted_groups:
  "\<forall>x\<in>set gs. is_text (fst x) \<Longrightarrow>
   sorted_wrt (\<lambda>x y. sql_le (fst x) (fst y)) (foldr insert_group gs [])"
  by (induction gs) (simp_all add: sorted_insert_group set_sorted_groups)


lemma summary_of_rows:
  "distinct (map fst (foldr insert_group
       (fold (\<lambda>r. accumulate (e_category r) (numeric (e_amount r))) sel []) [])) \<and>
   fst ` set (foldr insert_group
       (fold (\<lambda>r. accumulate (e_category r) (numeric (e_amount r))) sel []) []) =
     e_category ` set sel \<and>
   (\<forall>g\<in>set (foldr insert_group
       (fold (\<lambda>r. accumulate (e_category r) (numeric (e_amount r))) sel []) []).
      snd g = spec_total sel (fst g)) \<and>
   ((\<forall>r\<in>set sel. is_text (e_category r)) \<longrightarrow>
      sorted_wrt (\<lambda>x y. sql_le (fst x) (fst y)) (foldr insert_group
       (fold (\<lambda>r. accumulate (e_category r) (numeric (e_amount r))) sel []) []))"
proof -
  let ?G = "fold (\<lambda>r. accumulate (e_category r) (numeric (e_amount r))) sel []"
  have d: "distinct (map fst ?G)" by (rule group_distinct) simp
  have k: "fst ` set ?G = e_category ` set sel" by (simp add: group_keys)
  have t: "snd g = spec_total sel (fst g)" if "g \<in> set ?G" for g
  proof -
    from that d have "map_of ?G (fst g) = Some (snd g)" by simp
    moreover from that k have "fst g \<in> e_category ` set sel" by blast
    ultimately show ?thesis by (simp add: group_totals)
  qed
  have s: "sorted_wrt (\<lambda>x y. sql_le (fst x) (fst y)) (foldr insert_group ?G [])"
    if "\<forall>r\<in>set sel. is_text (e_category r)"
  proof (rule sorted_groups)
    from that k show "\<forall>x\<in>set ?G. is_text (fst x)" by force
  qed
  from d k t s show ?thesis
    by (simp add: distinct_sorted_groups set_sorted_groups)
qed

lemma summarize_query:
  "await (execute no_faults k (SelectSum ColCategory ColAmount [Between ColDate])
      [py_text (Some b), py_text (Some f)]) =
   Inr (k, \<lparr>lastrowid = 0, rowcount = - 1, description = [''category'', ''total_amount''],
            pending = map (\<lambda>(c, t). [c, SqlReal t]) (foldr insert_group
              (fold (\<lambda>r. accumulate (e_category r) (numeric (e_amount r)))
                 (filter (spec_in_range b f) (expenses (working k))) []) [])\<rparr>)"
  "await (execute no_faults k (SelectSum ColCategory ColAmount [Between ColDate, Eq ColCategory])
      [py_text (Some b), py_text (Some f), py_text (Some c)]) =
   Inr (k, \<lparr>lastrowid = 0, rowcount = - 1, description = [''category'', ''total_amount''],
            pending = map (\<lambda>(c, t). [c, SqlReal t]) (foldr insert_group
              (fold (\<lambda>r. accumulate (e_category r) (numeric (e_amount r)))
                 (filter (\<lambda>r. spec_in_range b f r \<and> e_category r = SqlText c)
                    (expenses (working k))) []) [])\<rparr>)"
  by (simp_all add: execute_no_faults exec_statement_def exec_select_sum_def bind_parameters_def py_text_def
      where_between_date where_between_date_category Let_def del: where_holds.simps)

lemma summarize_example:
  "foldr insert_group
     (fold (\<lambda>r. accumulate (e_category r) (numeric (e_amount r)))
        (filter (spec_in_range ''2024-01-01'' ''2024-12-31'') (expenses example_store)) []) [] =
   [(SqlText ''Food'', 22), (SqlText ''Travel'', 20)]"
  by (simp add: example_store_def example_row_def spec_in_range_def)

subsection \<open>The reading functions never return rows\<close>

text \<open>
  Iterating over the coroutine that \<^verbatim>\<open>cur.fetchall()\<close> returns raises
  \<^verbatim>\<open>TypeError\<close> inside the \<^verbatim>\<open>try\<close>, so both reading functions answer with an error
  dictionary even when the storage layer works.
\<close>

lemma list_expenses_no_faults:
  "list_expenses st no_faults b f =
     (st, StatusError ''Error listing expenses: 'coroutine' object is not iterable'')"
  by (simp add: list_expenses_def list_expenses_body_def async_with_no_faults execute_no_faults
      bind_parameters_def bind_py_text exec_statement_def exec_select_def iterate_def
      coroutine_not_iterable_def)

lemma summarize_no_faults:
  "summarize st no_faults b f c =
     (st, StatusError ''Error summarizing expenses: 'coroutine' object is not iterable'')"
  by (simp add: summarize_def summarize_body_def async_with_no_faults execute_no_faults
      bind_parameters_def bind_py_text exec_statement_def exec_select_sum_def iterate_def
      coroutine_not_iterable_def Let_def)

text \<open>
  Claim C1 at a concrete input: a first expense is added and answered with id 1; listing
  a range that contains its date answers with an error dictionary, not with the row.
\<close>

theorem add_then_list_returns_error:
  "add_expense empty_store no_faults (Some ''2024-01-05'') (Some (IntNum 10)) (Some ''Food'') (Some [])
       (Some ''memo'') =
     (\<lparr>expenses = [example_row 1 ''2024-01-05'' ''Food'' [] 10], sqlite_sequence = 1\<rparr>,
      AddOk 1 ''Expense added successfully'') \<and>
   snd (list_expenses
          (fst (add_expense empty_store no_faults (Some ''2024-01-05'') (Some (IntNum 10)) (Some ''Food'')
                  (Some []) (Some ''memo'')))
          no_faults (Some ''2024-01-01'') (Some ''2024-12-31'')) =
     StatusError ''Error listing expenses: 'coroutine' object is not iterable''"
  by (simp add: list_expenses_no_faults)
     (simp add: add_expense_def add_expense_body_def async_with_no_faults execute_no_faults
        commit_no_faults exec_statement_def exec_insert_def largest_rowid_def default_row_def
        not_null_cols_def bind_parameters_def py_text_def py_number_def double_of_small_int example_row_def empty_store_def Let_def)

text \<open>
  Claim C3 at a concrete input: the example table has rows of two categories in the range;
  \<^verbatim>\<open>summarize\<close> answers with an error dictionary, not with the two totals.
\<close>

theorem summarize_returns_error:
  "summarize example_store no_faults (Some ''2024-01-01'') (Some ''2024-12-31'') None =
     (example_store,
      StatusError ''Error summarizing expenses: 'coroutine' object is not iterable'')"
  by (rule summarize_no_faults)

text \<open>
  Claim C4 at a concrete input: all four rows of the example table lie in the range;
  \<^verbatim>\<open>list_expenses\<close> answers with an error dictionary, not with the rows.
\<close>

theorem list_expenses_returns_error:
  "list_expenses example_store no_faults (Some ''2024-01-01'') (Some ''2024-12-31'') =
     (example_store, StatusError ''Error listing expenses: 'coroutine' object is not iterable'')"
  by (rule list_expenses_no_faults)


end
